theory Spec2Isabelle
  imports Main "HOL-Library.Word"
begin

unbundle bit_operations_syntax

section \<open>Bytes, C strings and the CRC primitive\<close>

text \<open>
  A byte is a \<^typ>\<open>char\<close>; \<^term>\<open>of_char c :: nat\<close> is its value 0..255.  A C string is
  the list of its bytes before the terminating NUL, so it holds no \<open>CHR 0\<close>; a buffer
  that is read with an explicit length is a plain byte list.  The byte constants are
  named after their C escapes.
\<close>

definition NUL :: char where "NUL = CHR 0x00"
definition BS :: char where "BS = CHR 0x08"
definition TAB :: char where "TAB = CHR 0x09"
definition NL :: char where "NL = CHR 0x0A"
definition VT :: char where "VT = CHR 0x0B"
definition FF :: char where "FF = CHR 0x0C"
definition CR :: char where "CR = CHR 0x0D"
definition DQUOTE :: char where "DQUOTE = CHR 0x22"
definition SQUOTE :: char where "SQUOTE = CHR 0x27"
definition BSLASH :: char where "BSLASH = CHR 0x5C"

lemmas byte_defs = NUL_def BS_def TAB_def NL_def VT_def FF_def CR_def DQUOTE_def
  SQUOTE_def BSLASH_def

text \<open>
  \<open>*s>0 && isspace(*s)\<close> of \<open>crc_add\<close> and \<open>unindent\<close>: in the C locale the white-space
  bytes are space, \<open>\t\<close>, \<open>\n\<close>, \<open>\v\<close>, \<open>\f\<close> and \<open>\r\<close>; all are positive, and no byte
  from 0x80 on is white space whether \<open>char\<close> is signed or not.
\<close>

definition isspace :: "char \<Rightarrow> bool" where
  "isspace c = (c = CHR 0x20 \<or> c = TAB \<or> c = NL \<or> c = VT \<or> c = FF \<or> c = CR)"

text \<open>
  zlib's \<open>crc32(crc, buf, 1)\<close>, bit by bit (reflected polynomial \<open>0xEDB88320\<close>, the
  register inverted on entry and on exit).  \<open>crc32(0, NULL, 0)\<close>, the initial value, is 0.
  \<open>block_crc_\<close> is an \<open>unsigned long\<close> that only ever holds such values, so it is a
  32-bit word here.
\<close>

definition crc32_bit :: "32 word \<Rightarrow> 32 word" where
  "crc32_bit c = (if odd c then drop_bit 1 c XOR 0xEDB88320 else drop_bit 1 c)"

definition crc32 :: "32 word \<Rightarrow> char \<Rightarrow> 32 word" where
  "crc32 crc b = 0xFFFFFFFF XOR crc32_bit (crc32_bit (crc32_bit (crc32_bit
     (crc32_bit (crc32_bit (crc32_bit (crc32_bit ((crc XOR 0xFFFFFFFF) XOR of_char b))))))))"

definition crc32_init :: "32 word" where
  "crc32_init = 0"

lemmas crc32_eval =
  crc32_def [of "numeral k" for k] crc32_def [of 0] crc32_def [of 1]
  crc32_bit_def [of "numeral k" for k] crc32_bit_def [of 0] crc32_bit_def [of 1]
  crc32_init_def

section \<open>The writer\<close>

text \<open>
  Undefined behaviour of the C++ is a value of the model: a read outside the object a
  pointer points into, a NULL pointer handed to the C library, and a \<open>va_list\<close> that is
  read again after a callee has taken arguments from it.
\<close>

datatype fault = Out_Of_Bounds | Null_Pointer | Va_List_Reused

definition bind_fault :: "fault + 'a \<Rightarrow> ('a \<Rightarrow> fault + 'b) \<Rightarrow> fault + 'b" where
  "bind_fault r f = (case r of Inl e \<Rightarrow> Inl e | Inr x \<Rightarrow> f x)"

text \<open>The two fields of \<open>g_project\<close> that the writer reads.\<close>

record project =
  write_mergeback_data :: bool
  utf8_in_src :: bool

text \<open>
  \<open>Fd_Text_Tree\<close>: the hand-rolled binary tree behind \<open>write_h_once\<close> and
  \<open>write_c_once\<close>.  \<open>Text_Null\<close> is the null pointer.
\<close>

datatype Fd_Text_Tree = Text_Null | Text_Node string Fd_Text_Tree Fd_Text_Tree

text \<open>
  \<open>Fd_Code_Writer\<close>.  The two files are the bytes written to them so far.  Of the block
  buffer only its size is state: \<open>block_buffer_\<close> is NULL exactly while the size is 0,
  and its contents are overwritten before every use.  \<open>id_root\<close> and \<open>ptr_in_code\<close> are
  left out; no function below reads them.
\<close>

record writer =
  code_file :: string
  header_file :: string
  text_in_header :: Fd_Text_Tree
  text_in_code :: Fd_Text_Tree
  block_crc :: "32 word"
  block_buffer_size :: nat
  block_line_start :: bool
  indentation :: int
  write_sourceview :: bool
  varused_test :: int
  varused :: int

text \<open>The constructor \<open>Fd_Code_Writer::Fd_Code_Writer()\<close>, with both files opened empty.\<close>

definition Fd_Code_Writer :: writer where
  "Fd_Code_Writer = \<lparr> code_file = [], header_file = [], text_in_header = Text_Null,
     text_in_code = Text_Null, block_crc = crc32_init, block_buffer_size = 0,
     block_line_start = True, indentation = 0, write_sourceview = False,
     varused_test = 0, varused = 0 \<rparr>"

subsection \<open>crc_add\<close>

text \<open>
  One round of the \<open>for\<close> loop of \<open>crc_add\<close> on the bytes \<open>c # cs\<close> still to read
  (\<open>n = length (c # cs) > 0\<close>).  \<open>past\<close> is the byte behind the last one: the test
  \<open>if (*s)\<close> reads it when the white space skipped at a line start reaches the end of
  the data.  The round returns the new state and the bytes left for the next round, or
  \<open>None\<close> for them when \<open>n\<close> has reached 0 inside the round (the loop then ends).
\<close>

definition crc_add_round :: "char \<Rightarrow> char \<Rightarrow> string \<Rightarrow> writer \<Rightarrow> writer \<times> string option" where
  "crc_add_round past c cs w =
    (let s1 = (if block_line_start w then dropWhile isspace (c # cs) else c # cs);
         w1 = (if block_line_start w \<and> (case s1 of [] \<Rightarrow> past | x # _ \<Rightarrow> x) \<noteq> NUL
               then w\<lparr>block_line_start := False\<rparr> else w);
         s2 = (case s1 of [] \<Rightarrow> [] | x # r \<Rightarrow> if x = CR then r else s1)
     in case s2 of
          [] \<Rightarrow> (w1, None)
        | x # r \<Rightarrow>
            (let w2 = (if x = NL then w1\<lparr>block_line_start := True\<rparr> else w1)
             in (w2\<lparr>block_crc := crc32 (block_crc w2) x\<rparr>, Some r)))"

lemma crc_add_round_shorter:
  "crc_add_round past c cs w = (w', Some r) \<Longrightarrow> length r \<le> length cs"
proof -
  assume a: "crc_add_round past c cs w = (w', Some r)"
  have d: "length (dropWhile isspace (c # cs)) \<le> Suc (length cs)"
    using length_dropWhile_le [of isspace "c # cs"] by simp
  define s1 where "s1 = (if block_line_start w then dropWhile isspace (c # cs) else c # cs)"
  have l1: "length s1 \<le> Suc (length cs)"
    using d by (simp add: s1_def)
  define s2 where "s2 = (case s1 of [] \<Rightarrow> [] | x # r \<Rightarrow> if x = CR then r else s1)"
  have l2: "length s2 \<le> Suc (length cs)"
    using l1 by (cases s1) (auto simp: s2_def)
  from a have "\<exists>x. s2 = x # r"
    unfolding crc_add_round_def s1_def [symmetric] Let_def s2_def [symmetric]
    by (cases s2) auto
  with l2 show ?thesis by auto
qed

function crc_add_loop :: "char \<Rightarrow> string \<Rightarrow> writer \<Rightarrow> writer" where
  "crc_add_loop past [] w = w"
| "crc_add_loop past (c # cs) w =
     (case crc_add_round past c cs w of
        (w', None) \<Rightarrow> w'
      | (w', Some r) \<Rightarrow> crc_add_loop past r w')"
  by pat_completeness auto
termination
proof (relation "measure (\<lambda>(past, s, w). length s)")
  show "wf (measure (\<lambda>(past, s, w). length s))" by simp
next
  fix past c cs w x1 x2 r
  assume "(x1, x2) = crc_add_round past c cs w" and "x2 = Some r"
  then have "crc_add_round past c cs w = (x1, Some r)" by simp
  then have "length r \<le> length cs" by (rule crc_add_round_shorter)
  then show "((past, r, x1), (past, c # cs, w)) \<in> measure (\<lambda>(past, s, w). length s)"
    by simp
qed

text \<open>
  \<open>crc_add(data, n)\<close> on the \<open>n\<close> bytes \<open>data\<close> followed in memory by \<open>past\<close>.  The call
  \<open>crc_add(text)\<close> with \<open>n = -1\<close> takes \<open>strlen(text)\<close> bytes, and the byte behind
  them is the terminating NUL.
\<close>

definition crc_add :: "writer \<Rightarrow> string \<Rightarrow> char \<Rightarrow> writer" where
  "crc_add w data past = crc_add_loop past data w"

definition crc_add_str :: "writer \<Rightarrow> string \<Rightarrow> writer" where
  "crc_add_str w text = crc_add w text NUL"

subsection \<open>printf conversions\<close>

definition digit_char :: "nat \<Rightarrow> char" where
  "digit_char d = ''0123456789abcdef'' ! d"

text \<open>\<open>%d\<close> of an \<open>int\<close>.\<close>

function dec_digits :: "nat \<Rightarrow> string" where
  "dec_digits n = (if n < 10 then [digit_char n] else dec_digits (n div 10) @ [digit_char (n mod 10)])"
  by pat_completeness auto
termination
  by (relation "measure (\<lambda>n. n)") auto

declare dec_digits.simps [simp del]

definition printf_d :: "int \<Rightarrow> string" where
  "printf_d i = (if i < 0 then CHR ''-'' # dec_digits (nat (- i)) else dec_digits (nat i))"

text \<open>
  \<open>%04x\<close> and \<open>%08x\<close> of a value that fits the width (a 16-bit uid, a 32-bit CRC):
  exactly \<open>width\<close> lower-case hexadecimal digits.
\<close>

primrec printf_0x :: "nat \<Rightarrow> nat \<Rightarrow> string" where
  "printf_0x 0 v = []"
| "printf_0x (Suc width) v = printf_0x width (v div 16) @ [digit_char (v mod 16)]"

text \<open>\<open>%o\<close> of a byte value (\<open>c &= 255\<close> comes first in the source).\<close>

definition printf_o :: "nat \<Rightarrow> string" where
  "printf_o v =
     (if v < 8 then [digit_char v]
      else if v < 64 then [digit_char (v div 8), digit_char (v mod 8)]
      else [digit_char (v div 64), digit_char (v div 8 mod 8), digit_char (v mod 8)])"

text \<open>
  \<open>%.*s\<close> with precision \<open>n\<close> on the memory \<open>c\<close>: at most \<open>n\<close> bytes, none from the
  first NUL on; a negative precision counts as none given.
\<close>

definition printf_prec_s :: "int \<Rightarrow> string \<Rightarrow> string" where
  "printf_prec_s n c = takeWhile (\<lambda>x. x \<noteq> NUL) (if n < 0 then c else take (nat n) c)"

subsection \<open>Writing to the code file through the CRC\<close>

text \<open>
  \<open>crc_vprintf\<close> gets the formatted text (a C string) in place of the format and its
  arguments, and with it \<open>va\<close>: whether the format has a conversion, so that
  \<open>vsnprintf\<close> takes arguments from \<open>args\<close>.  With merge-back data on, the text goes
  through \<open>block_buffer_\<close>:
  \<^item> \<open>vsnprintf\<close> returns the full length \<open>n\<close>.  When \<open>n > block_buffer_size_\<close> the
    buffer grows to \<open>n + 128\<close> and \<open>vsnprintf\<close> is called a second time with the same
    \<open>args\<close>.  There is no \<open>va_copy\<close>: if the first call has taken arguments from
    \<open>args\<close>, its value is indeterminate and the second call is undefined.  A format
    without a conversion takes nothing from \<open>args\<close> and is formatted again as it was.
  \<^item> When \<open>n = 0\<close> and the buffer was never allocated, \<open>crc_add(NULL, 0)\<close> returns at
    once and \<open>fputs\<close> is handed the NULL pointer.
  \<^item> When \<open>n = block_buffer_size_ > 0\<close> the buffer is not grown, and \<open>vsnprintf\<close>, told
    the size \<open>block_buffer_size_\<close>, stores only \<open>n - 1\<close> bytes and the NUL:
    \<open>crc_add\<close> then reads \<open>n\<close> bytes, the last one that NUL, and \<open>fputs\<close> writes the
    \<open>n - 1\<close> bytes.
  With merge-back data off the text goes to the file with \<open>vfprintf\<close>.
\<close>

definition crc_vprintf :: "project \<Rightarrow> writer \<Rightarrow> bool \<Rightarrow> string \<Rightarrow> fault + writer" where
  "crc_vprintf p w va text =
     (if write_mergeback_data p then
        (if block_buffer_size w < length text then
           (if va then Inl Va_List_Reused
            else
              (let w1 = w\<lparr>block_buffer_size := length text + 128\<rparr>
               in Inr ((crc_add w1 text NUL)\<lparr>code_file := code_file w1 @ text\<rparr>)))
         else if block_buffer_size w = 0 then Inl Null_Pointer
         else if length text = block_buffer_size w then
           Inr ((crc_add w (butlast text @ [NUL]) NUL)\<lparr>code_file := code_file w @ butlast text\<rparr>)
         else Inr ((crc_add w text NUL)\<lparr>code_file := code_file w @ text\<rparr>))
      else Inr (w\<lparr>code_file := code_file w @ text\<rparr>))"

definition crc_printf :: "project \<Rightarrow> writer \<Rightarrow> bool \<Rightarrow> string \<Rightarrow> fault + writer" where
  "crc_printf p w va text = crc_vprintf p w va text"

definition crc_puts :: "project \<Rightarrow> writer \<Rightarrow> string \<Rightarrow> writer" where
  "crc_puts p w text =
     (let w1 = (if write_mergeback_data p then crc_add_str w text else w)
      in w1\<lparr>code_file := code_file w1 @ text\<rparr>)"

text \<open>
  \<open>crc_putc\<close> hands \<open>crc_add\<close> the address of its local \<open>uc\<close> and \<open>n = 1\<close>.  If the byte
  is white space at a line start it is skipped, and \<open>if (*s)\<close> reads the byte behind
  \<open>uc\<close>, outside the object.
\<close>

definition crc_putc_done :: "project \<Rightarrow> writer \<Rightarrow> char \<Rightarrow> writer" where
  "crc_putc_done p w c =
     (let w1 = (if write_mergeback_data p then crc_add w [c] NUL else w)
      in w1\<lparr>code_file := code_file w1 @ [c]\<rparr>)"

definition crc_putc :: "project \<Rightarrow> writer \<Rightarrow> char \<Rightarrow> fault + writer" where
  "crc_putc p w c =
     (if write_mergeback_data p \<and> block_line_start w \<and> isspace c then Inl Out_Of_Bounds
      else Inr (crc_putc_done p w c))"

subsection \<open>tag\<close>

definition tag_line :: "int \<Rightarrow> 16 word \<Rightarrow> 32 word \<Rightarrow> string" where
  "tag_line type uid crc =
     ''//~fl~'' @ printf_d type @ ''~'' @ printf_0x 4 (unat uid) @ ''~'' @
     printf_0x 8 (unat crc) @ ''~~'' @ [NL]"

definition tag :: "project \<Rightarrow> writer \<Rightarrow> int \<Rightarrow> 16 word \<Rightarrow> writer" where
  "tag p w type uid =
     (let w1 = (if write_mergeback_data p
                then w\<lparr>code_file := code_file w @ tag_line type uid (block_crc w)\<rparr> else w)
      in w1\<lparr>block_crc := crc32_init\<rparr>)"

subsection \<open>write_c, write_h and the lines with an optional semicolon\<close>

text \<open>
  \<open>vwrite_c\<close> and \<open>write_c\<close> pass their \<open>args\<close> on to \<open>crc_vprintf\<close>; \<open>va\<close> and
  \<open>text\<close> stand for the format and its arguments as they do there.
\<close>

definition vwrite_c :: "project \<Rightarrow> writer \<Rightarrow> bool \<Rightarrow> string \<Rightarrow> fault + writer" where
  "vwrite_c p w va text =
     (if varused_test w \<noteq> 0 then Inr (w\<lparr>varused := 1\<rparr>) else crc_vprintf p w va text)"

definition write_c :: "project \<Rightarrow> writer \<Rightarrow> bool \<Rightarrow> string \<Rightarrow> fault + writer" where
  "write_c p w va text = vwrite_c p w va text"

definition write_h :: "writer \<Rightarrow> string \<Rightarrow> writer" where
  "write_h w text =
     (if varused_test w \<noteq> 0 then w else w\<lparr>header_file := header_file w @ text\<rparr>)"

text \<open>
  \<open>write_cc(indent, n, c, com)\<close>.  \<open>c\<close> is the memory that the pointer \<open>c\<close> gives
  access to, so \<open>c[n-1]\<close> is a read outside it unless \<open>1 \<le> n \<le> length c\<close>.  \<open>indent\<close>
  and \<open>com\<close> are C strings.  The formats \<open>"%s%.*s"\<close> and \<open>" %s"\<close> have conversions,
  \<open>";"\<close> and \<open>"\n"\<close> have none.
\<close>

definition write_cc :: "project \<Rightarrow> writer \<Rightarrow> string \<Rightarrow> int \<Rightarrow> string \<Rightarrow> string \<Rightarrow> fault + writer" where
  "write_cc p w indent n c com =
     bind_fault (write_c p w True (indent @ printf_prec_s n c)) (\<lambda>w1.
       if n < 1 \<or> int (length c) < n then Inl Out_Of_Bounds
       else
         (let cc = c ! nat (n - 1) in
          bind_fault (if cc \<noteq> CHR ''}'' \<and> cc \<noteq> CHR '';'' then write_c p w1 False '';'' else Inr w1) (\<lambda>w2.
          bind_fault (if com \<noteq> [] then write_c p w2 True (CHR '' '' # com) else Inr w2) (\<lambda>w3.
          write_c p w3 False [NL]))))"

definition write_hc :: "writer \<Rightarrow> string \<Rightarrow> int \<Rightarrow> string \<Rightarrow> string \<Rightarrow> fault + writer" where
  "write_hc w indent n c com =
     (let w1 = write_h w (indent @ printf_prec_s n c) in
      if n < 1 \<or> int (length c) < n then Inl Out_Of_Bounds
      else
        (let cc = c ! nat (n - 1);
             w2 = (if cc \<noteq> CHR ''}'' \<and> cc \<noteq> CHR '';'' then write_h w1 '';'' else w1);
             w3 = (if com \<noteq> [] then write_h w2 (CHR '' '' # com) else w2)
         in Inr (write_h w3 [NL])))"

subsection \<open>write_h_once and write_c_once\<close>

text \<open>\<open>strcmp\<close> on C strings: the sign of the first difference, bytes compared unsigned.\<close>

fun strcmp :: "string \<Rightarrow> string \<Rightarrow> int" where
  "strcmp [] [] = 0"
| "strcmp [] (y # ys) = - 1"
| "strcmp (x # xs) [] = 1"
| "strcmp (x # xs) (y # ys) =
     (if x = y then strcmp xs ys
      else if (of_char x :: nat) < of_char y then - 1 else 1)"

text \<open>
  The search loop \<open>while (*p) { ... }\<close> of both functions: it returns \<open>None\<close> where the
  source returns 0 (the text is in the tree), and otherwise the tree with the new node
  stored where the descent met the null pointer.
\<close>

fun text_tree_add :: "string \<Rightarrow> Fd_Text_Tree \<Rightarrow> Fd_Text_Tree option" where
  "text_tree_add buf Text_Null = Some (Text_Node buf Text_Null Text_Null)"
| "text_tree_add buf (Text_Node t l r) =
     (let i = strcmp buf t in
      if i = 0 then None
      else if i < 0 then map_option (\<lambda>l'. Text_Node t l' r) (text_tree_add buf l)
      else map_option (\<lambda>r'. Text_Node t l r') (text_tree_add buf r))"

text \<open>The same descent where nothing is stored (the header tree in \<open>write_c_once\<close>).\<close>

fun text_tree_find :: "string \<Rightarrow> Fd_Text_Tree \<Rightarrow> bool" where
  "text_tree_find buf Text_Null = False"
| "text_tree_find buf (Text_Node t l r) =
     (let i = strcmp buf t in
      if i = 0 then True
      else if i < 0 then text_tree_find buf l
      else text_tree_find buf r)"

text \<open>
  \<open>vsnprintf(buf, sizeof(buf), format, args)\<close> into \<open>char buf[1024]\<close>: of the formatted
  line the first 1023 bytes are kept.
\<close>

definition vsnprintf_buf :: "string \<Rightarrow> string" where
  "vsnprintf_buf line = take 1023 line"

definition write_h_once :: "writer \<Rightarrow> string \<Rightarrow> int \<times> writer" where
  "write_h_once w line =
     (let buf = vsnprintf_buf line in
      case text_tree_add buf (text_in_header w) of
        None \<Rightarrow> (0, w)
      | Some t \<Rightarrow> (1, w\<lparr>header_file := header_file w @ buf @ [NL], text_in_header := t\<rparr>))"

definition write_c_once :: "project \<Rightarrow> writer \<Rightarrow> string \<Rightarrow> fault + int \<times> writer" where
  "write_c_once p w line =
     (let buf = vsnprintf_buf line in
      if text_tree_find buf (text_in_header w) then Inr (0, w)
      else
        (case text_tree_add buf (text_in_code w) of
           None \<Rightarrow> Inr (0, w)
         | Some t \<Rightarrow>
             bind_fault (crc_printf p w True (buf @ [NL])) (\<lambda>w1.
               Inr (1, w1\<lparr>text_in_code := t\<rparr>))))"

subsection \<open>write_cstring\<close>

text \<open>
  The loop keeps the writer and \<open>linelength\<close>.  \<open>{ crc_puts("\\\n"); linelength = 0; }\<close>
  under its test \<open>linelength >= limit\<close>:
\<close>

definition cstring_wrap :: "project \<Rightarrow> int \<Rightarrow> writer \<times> int \<Rightarrow> writer \<times> int" where
  "cstring_wrap p limit s =
     (if limit \<le> snd s then (crc_puts p (fst s) [BSLASH, NL], 0) else s)"

text \<open>The label \<open>QUOTED\<close>: a backslash and the byte \<open>c\<close>.\<close>

definition cstring_quoted :: "project \<Rightarrow> char \<Rightarrow> writer \<times> int \<Rightarrow> fault + writer \<times> int" where
  "cstring_quoted p c s =
     (let s1 = cstring_wrap p 77 s in
      bind_fault (crc_putc p (fst s1) BSLASH) (\<lambda>w2.
      bind_fault (crc_putc p w2 c) (\<lambda>w3.
      Inr (w3, snd s1 + 2))))"

text \<open>\<open>c >= ' ' && c < 127\<close>: the byte itself.\<close>

definition cstring_plain :: "project \<Rightarrow> char \<Rightarrow> writer \<times> int \<Rightarrow> fault + writer \<times> int" where
  "cstring_plain p c s =
     (let s1 = cstring_wrap p 78 s in
      bind_fault (crc_putc p (fst s1) c) (\<lambda>w2. Inr (w2, snd s1 + 1)))"

text \<open>
  \<open>g_project.utf8_in_src && (c&0x80)\<close>: the byte itself, and a line break only in front
  of the first byte of a sequence (\<open>c&0x40\<close>).
\<close>

definition cstring_utf8 :: "project \<Rightarrow> char \<Rightarrow> writer \<times> int \<Rightarrow> fault + writer \<times> int" where
  "cstring_utf8 p c s =
     (let s1 = (if bit (of_char c :: nat) 6 then cstring_wrap p 78 s else s) in
      bind_fault (crc_putc p (fst s1) c) (\<lambda>w2. Inr (w2, snd s1 + 1)))"

definition is_hex_digit :: "char \<Rightarrow> bool" where
  "is_hex_digit c =
     (let v = (of_char c :: nat) in
      (48 \<le> v \<and> v \<le> 57) \<or> (97 \<le> v \<and> v \<le> 102) \<or> (65 \<le> v \<and> v \<le> 70))"

text \<open>
  The octal constant of the byte value \<open>v\<close> (\<open>c &= 255\<close>): the three cases \<open>c < 8\<close>,
  \<open>c < 64\<close> and the rest differ in the column that breaks the line first
  (\<open>octal_limit\<close>) and in what is added to \<open>linelength\<close> (\<open>octal_width\<close>); all three
  print \<open>"\\%o"\<close>.  \<open>rest\<close> are the bytes from \<open>p\<close> up to \<open>e\<close>, and \<open>after\<close> is the
  byte at \<open>e\<close>, or \<open>None\<close> when \<open>e\<close> is the end of the object \<open>s\<close> points into:
  \<open>c = *p\<close> is read before \<open>p < e\<close> is tested.
\<close>

definition octal_limit :: "nat \<Rightarrow> int" where
  "octal_limit v = (if v < 8 then 76 else if v < 64 then 75 else 74)"

definition octal_width :: "nat \<Rightarrow> int" where
  "octal_width v = (if v < 8 then 2 else if v < 64 then 3 else 4)"

definition cstring_octal ::
  "project \<Rightarrow> char \<Rightarrow> string \<Rightarrow> char option \<Rightarrow> writer \<times> int \<Rightarrow> fault + writer \<times> int" where
  "cstring_octal p c rest after s =
     (let v = (of_char c :: nat);
          s1 = cstring_wrap p (octal_limit v) s
      in bind_fault (crc_printf p (fst s1) True (BSLASH # printf_o v)) (\<lambda>w2.
           let l2 = snd s1 + octal_width v in
           case (case rest of [] \<Rightarrow> after | x # _ \<Rightarrow> Some x) of
             None \<Rightarrow> Inl Out_Of_Bounds
           | Some x \<Rightarrow>
               if rest \<noteq> [] \<and> is_hex_digit x then
                 bind_fault (crc_putc p w2 DQUOTE) (\<lambda>w3.
                   let s4 = (if 79 \<le> l2 + 1 then (crc_puts p w3 [NL], 0) else (w3, l2 + 1)) in
                   bind_fault (crc_putc p (fst s4) DQUOTE) (\<lambda>w5. Inr (w5, snd s4 + 1)))
               else Inr (w2, l2)))"

text \<open>
  The \<open>switch (c)\<close> of one loop round.  \<open>prev\<close> is the input byte before \<open>c\<close>, the
  \<open>*(p-2)\<close> of the source, or \<open>None\<close> for the first byte (\<open>p-2 >= s\<close> fails).
\<close>

definition cstring_char ::
  "project \<Rightarrow> char option \<Rightarrow> char \<Rightarrow> string \<Rightarrow> char option \<Rightarrow> writer \<times> int \<Rightarrow> fault + writer \<times> int" where
  "cstring_char p prev c rest after s =
     (if c = BS then cstring_quoted p (CHR ''b'') s
      else if c = TAB then cstring_quoted p (CHR ''t'') s
      else if c = NL then cstring_quoted p (CHR ''n'') s
      else if c = FF then cstring_quoted p (CHR ''f'') s
      else if c = CR then cstring_quoted p (CHR ''r'') s
      else if c = DQUOTE \<or> c = SQUOTE \<or> c = BSLASH then cstring_quoted p c s
      else if c = CHR ''?'' \<and> prev = Some (CHR ''?'') then cstring_quoted p c s
      else if 32 \<le> (of_char c :: nat) \<and> (of_char c :: nat) < 127 then cstring_plain p c s
      else if utf8_in_src p \<and> 128 \<le> (of_char c :: nat) then cstring_utf8 p c s
      else cstring_octal p c rest after s)"

fun write_cstring_loop ::
  "project \<Rightarrow> char option \<Rightarrow> char option \<Rightarrow> string \<Rightarrow> writer \<times> int \<Rightarrow> fault + writer \<times> int" where
  "write_cstring_loop p after prev [] s = Inr s"
| "write_cstring_loop p after prev (c # rest) s =
     bind_fault (cstring_char p prev c rest after s) (write_cstring_loop p after (Some c) rest)"

text \<open>
  \<open>write_cstring(s, length)\<close>.  \<open>s\<close> is \<open>None\<close> for the null pointer and otherwise the
  bytes of the object it points into; forming \<open>e = s + length\<close> already leaves the
  object unless \<open>0 \<le> length \<le> length mem\<close>.
\<close>

definition write_cstring :: "project \<Rightarrow> writer \<Rightarrow> string option \<Rightarrow> int \<Rightarrow> fault + writer" where
  "write_cstring p w s len =
     (if varused_test w \<noteq> 0 then Inr (w\<lparr>varused := 1\<rparr>)
      else if write_sourceview w \<and> (s = None \<or> 300 < len) then
        (if 0 \<le> len
         then crc_printf p w True
                (DQUOTE # '' ... '' @ printf_d len @ '' bytes of text... '' @ [DQUOTE])
         else Inr (crc_puts p w (DQUOTE # '' ... text... '' @ [DQUOTE])))
      else if len = - 1 \<or> s = None then
        Inr (crc_puts p (crc_puts p w (NL # ''#error  string not found'' @ [NL]))
               (DQUOTE # '' ... undefined size text... '' @ [DQUOTE]))
      else
        (case s of
           None \<Rightarrow> Inl Null_Pointer
         | Some mem \<Rightarrow>
             if len < 0 \<or> int (length mem) < len then Inl Out_Of_Bounds
             else
               bind_fault (crc_putc p w DQUOTE) (\<lambda>w1.
               bind_fault (write_cstring_loop p
                   (if nat len < length mem then Some (mem ! nat len) else None)
                   None (take (nat len) mem) (w1, 1)) (\<lambda>s2.
               crc_putc p (fst s2) DQUOTE))))"

text \<open>\<open>write_cstring(s)\<close>: a C string with its terminating NUL, and \<open>strlen(s)\<close>.\<close>

definition write_cstring_str :: "project \<Rightarrow> writer \<Rightarrow> string \<Rightarrow> fault + writer" where
  "write_cstring_str p w str = write_cstring p w (Some (str @ [NUL])) (int (length str))"

section \<open>What the CRC functions leave alone\<close>

text \<open>\<open>crc_add\<close> assigns \<open>block_crc_\<close> and \<open>block_line_start_\<close> and nothing else.\<close>

definition crc_only :: "writer \<Rightarrow> writer \<Rightarrow> bool" where
  "crc_only w w' =
     (code_file w' = code_file w \<and> header_file w' = header_file w \<and>
      text_in_header w' = text_in_header w \<and> text_in_code w' = text_in_code w \<and>
      block_buffer_size w' = block_buffer_size w \<and> indentation w' = indentation w \<and>
      write_sourceview w' = write_sourceview w \<and> varused_test w' = varused_test w \<and>
      varused w' = varused w)"

lemma crc_only_refl: "crc_only w w"
  by (simp add: crc_only_def)

lemma crc_only_trans: "crc_only w w1 \<Longrightarrow> crc_only w1 w2 \<Longrightarrow> crc_only w w2"
  by (simp add: crc_only_def)

lemma crc_add_round_crc_only:
  "crc_add_round past c cs w = (w', r) \<Longrightarrow> crc_only w w'"
  by (auto simp: crc_add_round_def crc_only_def Let_def split: list.splits if_splits)

lemma crc_add_loop_crc_only: "crc_only w (crc_add_loop past s w)"
proof (induction past s w rule: crc_add_loop.induct)
  case (1 past w)
  show ?case by (simp add: crc_only_refl)
next
  case (2 past c cs w)
  obtain w' r where rd: "crc_add_round past c cs w = (w', r)"
    by (cases "crc_add_round past c cs w")
  have st: "crc_only w w'" using rd by (rule crc_add_round_crc_only)
  show ?case
  proof (cases r)
    case None
    with rd st show ?thesis by simp
  next
    case (Some r')
    have "crc_only w' (crc_add_loop past r' w')"
      using "2.IH" [OF rd [symmetric] Some] .
    with st have "crc_only w (crc_add_loop past r' w')" by (rule crc_only_trans)
    with rd Some show ?thesis by simp
  qed
qed

lemma crc_add_crc_only: "crc_only w (crc_add w d past)"
  by (simp add: crc_add_def crc_add_loop_crc_only)

lemma crc_add_code_file [simp]: "code_file (crc_add w d past) = code_file w"
  using crc_add_crc_only [of w d past] by (simp add: crc_only_def)

lemma crc_add_header_file [simp]: "header_file (crc_add w d past) = header_file w"
  using crc_add_crc_only [of w d past] by (simp add: crc_only_def)

lemma crc_add_text_in_header [simp]: "text_in_header (crc_add w d past) = text_in_header w"
  using crc_add_crc_only [of w d past] by (simp add: crc_only_def)

lemma crc_add_text_in_code [simp]: "text_in_code (crc_add w d past) = text_in_code w"
  using crc_add_crc_only [of w d past] by (simp add: crc_only_def)

lemma crc_add_block_buffer_size [simp]:
  "block_buffer_size (crc_add w d past) = block_buffer_size w"
  using crc_add_crc_only [of w d past] by (simp add: crc_only_def)

lemma crc_add_varused_test [simp]: "varused_test (crc_add w d past) = varused_test w"
  using crc_add_crc_only [of w d past] by (simp add: crc_only_def)

lemma crc_add_write_sourceview [simp]:
  "write_sourceview (crc_add w d past) = write_sourceview w"
  using crc_add_crc_only [of w d past] by (simp add: crc_only_def)

lemma bind_fault_Inr [simp]: "bind_fault (Inr x) f = f x"
  by (simp add: bind_fault_def)

lemma bind_fault_Inl [simp]: "bind_fault (Inl e) f = Inl e"
  by (simp add: bind_fault_def)

lemma crc_puts_code_file [simp]: "code_file (crc_puts p w t) = code_file w @ t"
  by (simp add: crc_puts_def crc_add_str_def Let_def)

lemma crc_puts_block_buffer_size [simp]:
  "block_buffer_size (crc_puts p w t) = block_buffer_size w"
  by (simp add: crc_puts_def crc_add_str_def Let_def)

lemma crc_putc_done_code_file [simp]: "code_file (crc_putc_done p w c) = code_file w @ [c]"
  by (simp add: crc_putc_done_def Let_def)

lemma crc_putc_done_block_buffer_size [simp]:
  "block_buffer_size (crc_putc_done p w c) = block_buffer_size w"
  by (simp add: crc_putc_done_def Let_def)

lemma crc_putc_not_space: "\<not> isspace c \<Longrightarrow> crc_putc p w c = Inr (crc_putc_done p w c)"
  by (simp add: crc_putc_def)

text \<open>
  \<open>block_buffer_\<close> holds a text when \<open>crc_vprintf\<close> neither grows the buffer for it nor
  cuts it: merge-back data is off, or the buffer is longer than the text.  The text
  then goes to the code file as it is, and the buffer stays as large as it was.
\<close>

definition buffer_holds :: "project \<Rightarrow> writer \<Rightarrow> string \<Rightarrow> bool" where
  "buffer_holds p w text = (write_mergeback_data p \<longrightarrow> length text < block_buffer_size w)"

lemma crc_vprintf_holds:
  assumes "buffer_holds p w text"
  shows "\<exists>w'. crc_vprintf p w va text = Inr w'
     \<and> code_file w' = code_file w @ text \<and> header_file w' = header_file w
     \<and> block_buffer_size w' = block_buffer_size w \<and> varused_test w' = varused_test w
     \<and> text_in_header w' = text_in_header w \<and> text_in_code w' = text_in_code w"
  using assms by (auto simp: crc_vprintf_def buffer_holds_def)

lemma crc_printf_holds:
  assumes "buffer_holds p w text"
  shows "\<exists>w'. crc_printf p w va text = Inr w'
     \<and> code_file w' = code_file w @ text \<and> header_file w' = header_file w
     \<and> block_buffer_size w' = block_buffer_size w \<and> varused_test w' = varused_test w
     \<and> text_in_header w' = text_in_header w \<and> text_in_code w' = text_in_code w"
  unfolding crc_printf_def using assms by (rule crc_vprintf_holds)

lemma buffer_holds_size:
  "block_buffer_size w' = block_buffer_size w \<Longrightarrow> buffer_holds p w' text = buffer_holds p w text"
  by (simp add: buffer_holds_def)

lemma buffer_holds_shorter:
  "buffer_holds p w text \<Longrightarrow> length t \<le> length text \<Longrightarrow> buffer_holds p w t"
  by (auto simp: buffer_holds_def)

text \<open>
  A format without a conversion on a new writer: the buffer grows.  After
  \<open>write_c("\n")\<close> it has 129 bytes; the newline at the line start is not counted.
\<close>

lemma write_c_newline:
  "write_c \<lparr>write_mergeback_data = True, utf8_in_src = False\<rparr> Fd_Code_Writer False [NL]
     = Inr (Fd_Code_Writer\<lparr>code_file := [NL], block_buffer_size := 129\<rparr>)"
  by (simp add: write_c_def vwrite_c_def crc_vprintf_def crc_add_def crc_add_round_def
      Fd_Code_Writer_def isspace_def byte_defs Let_def)

lemma printf_0x_numeral:
  "printf_0x (numeral k) v = printf_0x (pred_numeral k) (v div 16) @ [digit_char (v mod 16)]"
  by (simp only: numeral_eq_Suc [of k] printf_0x.simps)

lemma printf_0x_one: "printf_0x 1 v = [digit_char (v mod 16)]"
  by simp

section \<open>tag\<close>

text \<open>
  \<open>tag\<close> assigns \<open>block_crc_\<close> and writes at most the tag line; \<open>block_line_start_\<close>
  keeps the value it had.
\<close>

lemma tag_block_crc: "block_crc (tag p w type uid) = crc32_init"
  by (simp add: tag_def Let_def)

lemma tag_block_line_start: "block_line_start (tag p w type uid) = block_line_start w"
  by (simp add: tag_def Let_def)

text \<open>The scenario E5 of the specification: \<open>tag(1, 0x00ab)\<close> with the CRC \<open>0xDEADBEEF\<close>.\<close>

lemma tag_scenario_E5:
  "code_file (tag \<lparr>write_mergeback_data = True, utf8_in_src = False\<rparr>
      (Fd_Code_Writer\<lparr>block_crc := 0xDEADBEEF\<rparr>) 1 0x00ab) = ''//~fl~1~00ab~deadbeef~~'' @ [NL]"
  by (simp add: tag_def tag_line_def printf_d_def digit_char_def Fd_Code_Writer_def
      printf_0x_numeral printf_0x_one dec_digits.simps)

text \<open>
  C3.  After \<open>tag(kind, uid)\<close> the block CRC is the CRC32 initial value, but the line
  start flag is not set: a writer that has written \<open>x\<close> and no newline is in the
  middle of a line, and after \<open>tag(1, 0x00ab)\<close> its flag is still false.  (The reader,
  \<open>merge_back\<close>, sets both after every tag line.)
\<close>

theorem tag_leaves_line_start_false:
  "block_line_start (crc_puts \<lparr>write_mergeback_data = True, utf8_in_src = False\<rparr> Fd_Code_Writer ''x'') = False
   \<and> block_line_start (tag \<lparr>write_mergeback_data = True, utf8_in_src = False\<rparr>
        (crc_puts \<lparr>write_mergeback_data = True, utf8_in_src = False\<rparr> Fd_Code_Writer ''x'') 1 0x00ab) = False
   \<and> block_crc (tag \<lparr>write_mergeback_data = True, utf8_in_src = False\<rparr>
        (crc_puts \<lparr>write_mergeback_data = True, utf8_in_src = False\<rparr> Fd_Code_Writer ''x'') 1 0x00ab) = crc32_init"
  by (simp add: tag_def crc_puts_def crc_add_str_def crc_add_def crc_add_round_def
      Fd_Code_Writer_def isspace_def byte_defs crc32_eval)

section \<open>crc_add and carriage returns\<close>

text \<open>
  C4.  The streams \<open>a\r\rb\<close> and \<open>ab\<close> differ only in carriage returns, yet from the
  constructor's state \<open>crc_add\<close> gives them different CRCs: after the first \<open>\r\<close> is
  skipped, the byte that follows is added whatever it is, so the second \<open>\r\<close> counts.
  The first stream gets the CRC32 of \<open>a\rb\<close>, \<open>0xA046063C\<close>, the second that of \<open>ab\<close>,
  \<open>0x9E83486D\<close>.
\<close>

theorem crc_add_counts_second_cr:
  "filter (\<lambda>c. c \<noteq> CR) [CHR ''a'', CR, CR, CHR ''b''] = ''ab''
   \<and> block_crc (crc_add_str Fd_Code_Writer [CHR ''a'', CR, CR, CHR ''b'']) = 0xA046063C
   \<and> block_crc (crc_add_str Fd_Code_Writer ''ab'') = 0x9E83486D
   \<and> block_crc (crc_add_str Fd_Code_Writer [CHR ''a'', CR, CR, CHR ''b''])
       \<noteq> block_crc (crc_add_str Fd_Code_Writer ''ab'')"
  by (simp add: crc_add_str_def crc_add_def crc_add_round_def Fd_Code_Writer_def isspace_def
      byte_defs crc32_eval)

section \<open>write_cstring\<close>

lemma cstring_wrap_code_file:
  "code_file (fst (cstring_wrap p limit (w, ll))) =
     code_file w @ (if limit \<le> ll then [BSLASH, NL] else [])"
  by (simp add: cstring_wrap_def)

lemma cstring_wrap_snd: "snd (cstring_wrap p limit (w, ll)) = (if limit \<le> ll then 0 else ll)"
  by (simp add: cstring_wrap_def)

lemma cstring_wrap_block_buffer_size:
  "block_buffer_size (fst (cstring_wrap p limit (w, ll))) = block_buffer_size w"
  by (simp add: cstring_wrap_def)

lemma not_space_DQUOTE: "\<not> isspace DQUOTE"
  by (simp add: isspace_def byte_defs)



subsection \<open>Two question marks\<close>





subsection \<open>Octal constants\<close>

text \<open>The value a C compiler reads from the digits of an octal escape.\<close>

definition octal_value :: "string \<Rightarrow> nat" where
  "octal_value ds = fold (\<lambda>d v. 8 * v + (of_char d - 48)) ds 0"

lemma digit_char_lt_8:
  "d < 8 \<Longrightarrow> of_char (digit_char d) = 48 + d \<and> (digit_char d = CHR ''0'' \<longrightarrow> d = 0)"
proof -
  assume "d < 8"
  then consider "d = 0" | "d = 1" | "d = 2" | "d = 3" | "d = 4" | "d = 5" | "d = 6" | "d = 7"
    by linarith
  then show ?thesis
    by cases (simp_all add: digit_char_def)
qed

lemma printf_o_exact:
  "v < 256 \<Longrightarrow>
   octal_value (printf_o v) = v \<and> (printf_o v = ''0'' \<or> hd (printf_o v) \<noteq> CHR ''0'')"
proof -
  assume v: "v < 256"
  have a: "v div 64 < 8" using v by simp
  have b: "v div 8 mod 8 < 8" by simp
  have c: "v mod 8 < 8" by simp
  have d: "v < 64 \<Longrightarrow> v div 8 < 8" by simp
  have f: "v = 8 * (v div 8) + v mod 8" by simp
  have g: "v div 8 = 8 * (v div 8 div 8) + v div 8 mod 8" by simp
  have h: "v div 8 div 8 = v div 64" by (simp add: div_mult2_eq)
  have e: "v = 64 * (v div 64) + 8 * (v div 8 mod 8) + v mod 8"
    using f g h by linarith
  show ?thesis
  proof (cases "v < 8")
    case True
    then show ?thesis
      using digit_char_lt_8 [of v] by (auto simp: printf_o_def octal_value_def)
  next
    case n8: False
    show ?thesis
    proof (cases "v < 64")
      case True
      have "v div 8 \<noteq> 0" using n8 by simp
      then show ?thesis
        using n8 True digit_char_lt_8 [OF d [OF True]] digit_char_lt_8 [OF c] f
        by (auto simp: printf_o_def octal_value_def)
    next
      case False
      have "v div 64 \<noteq> 0" using False by simp
      then show ?thesis
        using n8 False digit_char_lt_8 [OF a] digit_char_lt_8 [OF b] digit_char_lt_8 [OF c] e
        by (auto simp: printf_o_def octal_value_def)
    qed
  qed
qed

lemma printf_o_length: "length (printf_o v) < 4 \<and> printf_o v \<noteq> []"
  by (simp add: printf_o_def)

lemma cstring_octal_emits:
  assumes hold: "buffer_holds p w (BSLASH # printf_o (of_char c))"
    and peek: "rest \<noteq> [] \<or> after \<noteq> None"
  shows "\<exists>w' ll'. cstring_octal p c rest after (w, ll) = Inr (w', ll')
    \<and> code_file w' = code_file w
        @ (if octal_limit (of_char c) \<le> ll then [BSLASH, NL] else [])
        @ BSLASH # printf_o (of_char c)
        @ (if rest \<noteq> [] \<and> is_hex_digit (hd rest)
           then DQUOTE # (if 79 \<le> (if octal_limit (of_char c) \<le> ll then 0 else ll)
                                  + octal_width (of_char c) + 1
                          then [NL] else []) @ [DQUOTE]
           else [])"
proof -
  define v where "v = (of_char c :: nat)"
  define s1 where "s1 = cstring_wrap p (octal_limit v) (w, ll)"
  have h1: "buffer_holds p (fst s1) (BSLASH # printf_o v)"
    using hold by (simp add: s1_def v_def buffer_holds_def cstring_wrap_block_buffer_size)
  have cf1: "code_file (fst s1) = code_file w @ (if octal_limit v \<le> ll then [BSLASH, NL] else [])"
    unfolding s1_def by (rule cstring_wrap_code_file)
  have l1: "snd s1 = (if octal_limit v \<le> ll then 0 else ll)"
    unfolding s1_def by (rule cstring_wrap_snd)
  obtain w2 where pr: "crc_printf p (fst s1) True (BSLASH # printf_o v) = Inr w2"
    and cf2: "code_file w2 = code_file (fst s1) @ BSLASH # printf_o v"
    using crc_printf_holds [OF h1, of True] by blast
  define l2 where "l2 = snd s1 + octal_width v"
  have unf: "cstring_octal p c rest after (w, ll) =
      (case (case rest of [] \<Rightarrow> after | x # _ \<Rightarrow> Some x) of
         None \<Rightarrow> Inl Out_Of_Bounds
       | Some x \<Rightarrow>
           if rest \<noteq> [] \<and> is_hex_digit x then
             bind_fault (crc_putc p w2 DQUOTE) (\<lambda>w3.
               let s4 = (if 79 \<le> l2 + 1 then (crc_puts p w3 [NL], 0) else (w3, l2 + 1)) in
               bind_fault (crc_putc p (fst s4) DQUOTE) (\<lambda>w5. Inr (w5, snd s4 + 1)))
           else Inr (w2, l2))"
    unfolding cstring_octal_def v_def [symmetric] Let_def s1_def [symmetric] pr l2_def by simp
  show ?thesis
  proof (cases "rest \<noteq> [] \<and> is_hex_digit (hd rest)")
    case True
    then obtain x r where rest: "rest = x # r" and hx: "is_hex_digit x"
      by (cases rest) auto
    show ?thesis
      unfolding unf v_def [symmetric]
      using hx cf1 cf2 l1
      by (simp add: rest crc_putc_not_space not_space_DQUOTE Let_def l2_def)
  next
    case False
    then show ?thesis
      unfolding unf v_def [symmetric]
      using peek cf1 cf2
      by (cases rest) auto
  qed
qed

text \<open>The scenario E3 of the specification, the two bytes \<open>0x01\<close>, \<open>9\<close>.\<close>

lemma write_cstring_scenario_E3:
  assumes v: "varused_test w = 0" and hold: "buffer_holds p w (BSLASH # ''1'')"
  shows "\<exists>w'. write_cstring_str p w [CHR 0x01, CHR ''9''] = Inr w'
      \<and> code_file w' = code_file w @ DQUOTE # BSLASH # ''1'' @ DQUOTE # DQUOTE # ''9'' @ [DQUOTE]"
proof -
  define w1 where "w1 = crc_putc_done p w DQUOTE"
  have q1: "crc_putc p w DQUOTE = Inr w1"
    by (simp add: w1_def crc_putc_not_space not_space_DQUOTE)
  have cf1: "code_file w1 = code_file w @ [DQUOTE]"
    by (simp add: w1_def)
  have h1: "buffer_holds p w1 (BSLASH # printf_o (of_char (CHR 0x01)))"
    using hold by (simp add: w1_def buffer_holds_def printf_o_def digit_char_def)
  have pk: "''9'' \<noteq> [] \<or> Some NUL \<noteq> None" by simp
  obtain w2 ll2 where o: "cstring_octal p (CHR 0x01) ''9'' (Some NUL) (w1, 1) = Inr (w2, ll2)"
    and cf2: "code_file w2 = code_file w1 @ BSLASH # ''1'' @ [DQUOTE, DQUOTE]"
    using cstring_octal_emits [OF h1 pk, of 1]
    by (auto simp: printf_o_def digit_char_def is_hex_digit_def octal_limit_def octal_width_def)
  have ch1: "cstring_char p None (CHR 0x01) ''9'' (Some NUL) (w1, 1)
      = cstring_octal p (CHR 0x01) ''9'' (Some NUL) (w1, 1)"
    by (simp add: cstring_char_def byte_defs)
  have ch2: "cstring_char p (Some (CHR 0x01)) (CHR ''9'') [] (Some NUL) (w2, ll2)
      = Inr (crc_putc_done p (fst (cstring_wrap p 78 (w2, ll2))) (CHR ''9''),
             snd (cstring_wrap p 78 (w2, ll2)) + 1)"
    by (simp add: cstring_char_def cstring_plain_def byte_defs Let_def crc_putc_not_space
        isspace_def)
  have ll2: "ll2 < 78"
    using o q1
    by (auto simp: cstring_octal_def Let_def cstring_wrap_def octal_limit_def octal_width_def
        is_hex_digit_def bind_fault_def crc_putc_not_space not_space_DQUOTE
        split: sum.splits if_splits)
  have "write_cstring_str p w [CHR 0x01, CHR ''9'']
      = crc_putc p (crc_putc_done p w2 (CHR ''9'')) DQUOTE"
    using v q1 o ch1 ch2 ll2
    by (simp add: write_cstring_str_def write_cstring_def cstring_wrap_def)
  then show ?thesis
    using cf1 cf2 by (simp add: crc_putc_not_space not_space_DQUOTE)
qed

text \<open>
  C6, as the claim states it.  At the two bytes \<open>0x01\<close>, \<open>9\<close> the output is \<open>"\1""9"\<close>,
  the two literals with nothing between them, and not \<open>"\1" "9"\<close>.  With \<open>utf8_in_src\<close>
  on, the bytes \<open>0xC3\<close>, \<open>0xA9\<close> are neither directly escaped nor printable and are
  written as they are, not as octal escapes.  When the object \<open>s\<close> points into ends
  with the byte of an octal escape, the lookahead \<open>c = *p\<close> reads behind it.  On a new
  writer with merge-back data on, \<open>crc_printf("\\%o", c)\<close> has to grow the block buffer
  and formats a second time from the \<open>va_list\<close> it has used.
\<close>

theorem write_cstring_octal_split_counterexample:
  "map_sum id code_file (write_cstring_str \<lparr>write_mergeback_data = False, utf8_in_src = False\<rparr>
       Fd_Code_Writer [CHR 0x01, CHR ''9''])
     = Inr (DQUOTE # BSLASH # ''1'' @ DQUOTE # DQUOTE # ''9'' @ [DQUOTE])
   \<and> map_sum id code_file (write_cstring_str \<lparr>write_mergeback_data = False, utf8_in_src = False\<rparr>
       Fd_Code_Writer [CHR 0x01, CHR ''9''])
     \<noteq> Inr (DQUOTE # BSLASH # ''1'' @ DQUOTE # CHR '' '' # DQUOTE # ''9'' @ [DQUOTE])
   \<and> map_sum id code_file (write_cstring_str \<lparr>write_mergeback_data = False, utf8_in_src = True\<rparr>
       Fd_Code_Writer [CHR 0xC3, CHR 0xA9])
     = Inr [DQUOTE, CHR 0xC3, CHR 0xA9, DQUOTE]
   \<and> write_cstring \<lparr>write_mergeback_data = False, utf8_in_src = False\<rparr>
       Fd_Code_Writer (Some [CHR 0x01]) 1 = Inl Out_Of_Bounds
   \<and> write_cstring_str \<lparr>write_mergeback_data = True, utf8_in_src = False\<rparr>
       Fd_Code_Writer [CHR 0x01, CHR ''9''] = Inl Va_List_Reused"
  by (simp add: write_cstring_str_def write_cstring_def cstring_char_def cstring_octal_def
      cstring_plain_def cstring_utf8_def cstring_wrap_def isspace_def byte_defs crc_putc_def
      crc_putc_done_def crc_printf_def crc_vprintf_def printf_o_def digit_char_def
      is_hex_digit_def octal_width_def octal_limit_def Fd_Code_Writer_def Let_def
      crc_add_def crc_add_round_def)

text \<open>
  C6, amended.  Take a byte \<open>c\<close> that is none of the directly escaped ones, is not
  printable ASCII and, when \<open>utf8_in_src\<close> is on, is below \<open>0x80\<close>; let a byte follow it
  in the object (the next input byte, or behind the last one the NUL of a C string), and
  let the block buffer hold the escape (merge-back data is off, or the buffer is longer
  than the escape).  Wherever the loop stands at \<open>c\<close>, it writes for it a backslash and
  the octal numeral of its value, after the backslash-newline that breaks a full line;
  the numeral reads back as the value and has no leading zero.  When the next input
  byte is a hexadecimal digit the quote is closed and opened again at once: nothing
  stands between the two quotes but the newline that breaks a line which has reached
  column 79.  For the two bytes \<open>0x01\<close>, \<open>9\<close> a writer that is not in the \<open>varused_test\<close>
  mode and whose block buffer holds the escape writes \<open>"\1""9"\<close>.
\<close>

theorem write_cstring_octal_escape:
  assumes "c \<noteq> BS \<and> c \<noteq> TAB \<and> c \<noteq> NL \<and> c \<noteq> FF \<and> c \<noteq> CR \<and> c \<noteq> DQUOTE \<and> c \<noteq> SQUOTE \<and> c \<noteq> BSLASH"
    and "\<not> (32 \<le> (of_char c :: nat) \<and> (of_char c :: nat) < 127)"
    and "\<not> (utf8_in_src p \<and> 128 \<le> (of_char c :: nat))"
    and "buffer_holds p w (BSLASH # printf_o (of_char c))"
    and "rest \<noteq> [] \<or> after \<noteq> None"
  shows "(\<exists>w' ll'. write_cstring_loop p after prev (c # rest) (w, ll)
              = write_cstring_loop p after (Some c) rest (w', ll')
          \<and> code_file w' = code_file w
              @ (if octal_limit (of_char c) \<le> ll then [BSLASH, NL] else [])
              @ BSLASH # printf_o (of_char c)
              @ (if rest \<noteq> [] \<and> is_hex_digit (hd rest)
                 then DQUOTE # (if 79 \<le> (if octal_limit (of_char c) \<le> ll then 0 else ll)
                                        + octal_width (of_char c) + 1
                                then [NL] else []) @ [DQUOTE]
                 else []))
     \<and> octal_value (printf_o (of_char c)) = of_char c
     \<and> (printf_o (of_char c) = ''0'' \<or> hd (printf_o (of_char c)) \<noteq> CHR ''0'')
     \<and> (varused_test w0 = 0 \<and> buffer_holds p w0 (BSLASH # ''1'') \<longrightarrow>
          (\<exists>w'. write_cstring_str p w0 [CHR 0x01, CHR ''9''] = Inr w'
             \<and> code_file w' = code_file w0
                 @ DQUOTE # BSLASH # ''1'' @ DQUOTE # DQUOTE # ''9'' @ [DQUOTE]))"
proof -
  have q: "c \<noteq> CHR ''?''"
    using assms(2) by auto
  have ch: "cstring_char p prev c rest after (w, ll) = cstring_octal p c rest after (w, ll)"
    using assms(1-3) q by (auto simp: cstring_char_def)
  obtain w' ll' where st: "cstring_octal p c rest after (w, ll) = Inr (w', ll')"
    and cf: "code_file w' = code_file w
        @ (if octal_limit (of_char c) \<le> ll then [BSLASH, NL] else [])
        @ BSLASH # printf_o (of_char c)
        @ (if rest \<noteq> [] \<and> is_hex_digit (hd rest)
           then DQUOTE # (if 79 \<le> (if octal_limit (of_char c) \<le> ll then 0 else ll)
                                  + octal_width (of_char c) + 1
                          then [NL] else []) @ [DQUOTE]
           else [])"
    using cstring_octal_emits [OF assms(4,5), of ll] by blast
  have loop: "write_cstring_loop p after prev (c # rest) (w, ll)
      = write_cstring_loop p after (Some c) rest (w', ll')"
    by (simp add: ch st)
  have oct: "octal_value (printf_o (of_char c)) = of_char c
      \<and> (printf_o (of_char c) = ''0'' \<or> hd (printf_o (of_char c)) \<noteq> CHR ''0'')"
    by (rule printf_o_exact) simp
  have ex: "varused_test w0 = 0 \<and> buffer_holds p w0 (BSLASH # ''1'') \<longrightarrow>
          (\<exists>w'. write_cstring_str p w0 [CHR 0x01, CHR ''9''] = Inr w'
             \<and> code_file w' = code_file w0
                 @ DQUOTE # BSLASH # ''1'' @ DQUOTE # DQUOTE # ''9'' @ [DQUOTE])"
    using write_cstring_scenario_E3 [of w0 p] by blast
  from loop cf oct ex show ?thesis by blast
qed

text \<open>
  The theorem at the writer that \<open>write_c("\n")\<close> leaves of a new one, with merge-back
  data on: the block buffer has 129 bytes.
\<close>

theorem write_cstring_octal_escape_witness:
  "write_c \<lparr>write_mergeback_data = True, utf8_in_src = False\<rparr> Fd_Code_Writer False [NL]
     = Inr (Fd_Code_Writer\<lparr>code_file := [NL], block_buffer_size := 129\<rparr>)
   \<and> (CHR 0x01 \<noteq> BS \<and> CHR 0x01 \<noteq> TAB \<and> CHR 0x01 \<noteq> NL \<and> CHR 0x01 \<noteq> FF \<and> CHR 0x01 \<noteq> CR
      \<and> CHR 0x01 \<noteq> DQUOTE \<and> CHR 0x01 \<noteq> SQUOTE \<and> CHR 0x01 \<noteq> BSLASH)
   \<and> \<not> (32 \<le> (of_char (CHR 0x01) :: nat) \<and> (of_char (CHR 0x01) :: nat) < 127)
   \<and> buffer_holds \<lparr>write_mergeback_data = True, utf8_in_src = False\<rparr>
        (Fd_Code_Writer\<lparr>code_file := [NL], block_buffer_size := 129\<rparr>) (BSLASH # ''1'')
   \<and> (\<exists>w' ll'. write_cstring_loop \<lparr>write_mergeback_data = True, utf8_in_src = False\<rparr> (Some NUL) None
                  [CHR 0x01, CHR ''9''] (Fd_Code_Writer\<lparr>code_file := [NL], block_buffer_size := 129\<rparr>, 1)
              = write_cstring_loop \<lparr>write_mergeback_data = True, utf8_in_src = False\<rparr> (Some NUL)
                  (Some (CHR 0x01)) ''9'' (w', ll')
          \<and> code_file w' = NL # BSLASH # ''1'' @ [DQUOTE, DQUOTE])
   \<and> octal_value (printf_o (of_char (CHR 0x01))) = 1
   \<and> (\<exists>w'. write_cstring_str \<lparr>write_mergeback_data = True, utf8_in_src = False\<rparr>
              (Fd_Code_Writer\<lparr>code_file := [NL], block_buffer_size := 129\<rparr>) [CHR 0x01, CHR ''9'']
            = Inr w'
          \<and> code_file w' = NL # DQUOTE # BSLASH # ''1'' @ DQUOTE # DQUOTE # ''9'' @ [DQUOTE])"
proof -
  let ?p = "\<lparr>write_mergeback_data = True, utf8_in_src = False\<rparr>"
  let ?w = "Fd_Code_Writer\<lparr>code_file := [NL], block_buffer_size := 129\<rparr>"
  have h1: "CHR 0x01 \<noteq> BS \<and> CHR 0x01 \<noteq> TAB \<and> CHR 0x01 \<noteq> NL \<and> CHR 0x01 \<noteq> FF \<and> CHR 0x01 \<noteq> CR
      \<and> CHR 0x01 \<noteq> DQUOTE \<and> CHR 0x01 \<noteq> SQUOTE \<and> CHR 0x01 \<noteq> BSLASH"
    by (simp add: byte_defs)
  have h2: "\<not> (32 \<le> (of_char (CHR 0x01) :: nat) \<and> (of_char (CHR 0x01) :: nat) < 127)"
    by simp
  have h3: "\<not> (utf8_in_src ?p \<and> 128 \<le> (of_char (CHR 0x01) :: nat))"
    by simp
  have h4: "buffer_holds ?p ?w (BSLASH # printf_o (of_char (CHR 0x01)))"
    by (simp add: buffer_holds_def printf_o_def)
  have h4': "buffer_holds ?p ?w (BSLASH # ''1'')"
    by (simp add: buffer_holds_def)
  have h5: "''9'' \<noteq> [] \<or> Some NUL \<noteq> None" by simp
  have v: "varused_test ?w = 0" by (simp add: Fd_Code_Writer_def)
  show ?thesis
    using h1 h2 h4' v write_c_newline
      write_cstring_octal_escape [OF h1 h2 h3 h4 h5, of None 1 ?w]
    by (simp add: is_hex_digit_def octal_limit_def octal_width_def printf_o_def digit_char_def)
qed

section \<open>write_cc and write_hc\<close>

lemma write_c_holds:
  assumes "varused_test w = 0" and "buffer_holds p w text"
  shows "\<exists>w'. write_c p w va text = Inr w'
     \<and> code_file w' = code_file w @ text
     \<and> block_buffer_size w' = block_buffer_size w \<and> varused_test w' = 0"
  using crc_vprintf_holds [OF assms(2), of va] assms(1)
  by (auto simp: write_c_def vwrite_c_def)

lemma write_c_varused:
  "varused_test w \<noteq> 0 \<Longrightarrow> write_c p w va text = Inr (w\<lparr>varused := 1\<rparr>)"
  by (simp add: write_c_def vwrite_c_def)

lemma write_cc_outside:
  "n < 1 \<or> int (length c) < n \<Longrightarrow> isl (write_cc p w indent n c com)"
  by (cases "write_c p w True (indent @ printf_prec_s n c)") (auto simp: write_cc_def)

lemma write_hc_outside:
  "n < 1 \<or> int (length c) < n \<Longrightarrow> isl (write_hc w indent n c com)"
  by (auto simp: write_hc_def Let_def)

lemma write_cc_inside:
  assumes n: "1 \<le> n" "n \<le> int (length c)" and v: "varused_test w = 0"
    and h1: "buffer_holds p w (indent @ printf_prec_s n c)"
    and h2: "buffer_holds p w (CHR '' '' # com)"
  shows "\<exists>w'. write_cc p w indent n c com = Inr w'
     \<and> code_file w' = code_file w @ indent @ printf_prec_s n c
         @ (if c ! nat (n - 1) = CHR ''}'' \<or> c ! nat (n - 1) = CHR '';'' then [] else '';'')
         @ (if com = [] then [] else CHR '' '' # com)
         @ [NL]"
proof -
  define t1 where "t1 = indent @ printf_prec_s n c"
  define semi where "semi = (if c ! nat (n - 1) = CHR ''}'' \<or> c ! nat (n - 1) = CHR '';'' then [] else '';'')"
  have one: "buffer_holds p w x" if "length x = 1" for x
    using h2 that by (auto simp: buffer_holds_def)
  obtain w1 where s1: "write_c p w True t1 = Inr w1"
    and c1: "code_file w1 = code_file w @ t1"
    and z1: "block_buffer_size w1 = block_buffer_size w" and v1: "varused_test w1 = 0"
    using write_c_holds [OF v h1, of True] unfolding t1_def by blast
  have "buffer_holds p w1 '';''"
    using one [of "'';''"] by (simp add: buffer_holds_size [OF z1])
  from write_c_holds [OF v1 this, of False]
  obtain w2 where s2: "(if c ! nat (n - 1) \<noteq> CHR ''}'' \<and> c ! nat (n - 1) \<noteq> CHR '';''
             then write_c p w1 False '';'' else Inr w1) = Inr w2"
    and c2: "code_file w2 = code_file w1 @ semi"
    and z2: "block_buffer_size w2 = block_buffer_size w" and v2: "varused_test w2 = 0"
    using z1 v1 by (cases "c ! nat (n - 1) = CHR ''}'' \<or> c ! nat (n - 1) = CHR '';''")
      (auto simp: semi_def)
  have "buffer_holds p w2 (CHR '' '' # com)"
    using h2 by (simp add: buffer_holds_size [OF z2])
  from write_c_holds [OF v2 this, of True]
  obtain w3 where s3: "(if com \<noteq> [] then write_c p w2 True (CHR '' '' # com) else Inr w2) = Inr w3"
    and c3: "code_file w3 = code_file w2 @ (if com = [] then [] else CHR '' '' # com)"
    and z3: "block_buffer_size w3 = block_buffer_size w" and v3: "varused_test w3 = 0"
    using z2 v2 by (cases "com = []") auto
  have "buffer_holds p w3 [NL]"
    using one [of "[NL]"] by (simp add: buffer_holds_size [OF z3])
  from write_c_holds [OF v3 this, of False]
  obtain w4 where s4: "write_c p w3 False [NL] = Inr w4"
    and c4: "code_file w4 = code_file w3 @ [NL]"
    by blast
  have "write_cc p w indent n c com = Inr w4"
    using n s1 s2 s3 s4 by (simp add: write_cc_def t1_def [symmetric] Let_def)
  moreover have "code_file w4 = code_file w @ t1 @ semi
      @ (if com = [] then [] else CHR '' '' # com) @ [NL]"
    by (simp add: c4 c3 c2 c1)
  ultimately show ?thesis
    unfolding t1_def semi_def by simp
qed

lemma write_hc_inside:
  assumes n: "1 \<le> n" "n \<le> int (length c)" and v: "varused_test w = 0"
  shows "\<exists>w'. write_hc w indent n c com = Inr w'
     \<and> header_file w' = header_file w @ indent @ printf_prec_s n c
         @ (if c ! nat (n - 1) = CHR ''}'' \<or> c ! nat (n - 1) = CHR '';'' then [] else '';'')
         @ (if com = [] then [] else CHR '' '' # com)
         @ [NL]"
  using n v by (simp add: write_hc_def write_h_def Let_def)

lemma write_cc_varused:
  assumes n: "1 \<le> n" "n \<le> int (length c)" and v: "varused_test w \<noteq> 0"
  shows "write_cc p w indent n c com = Inr (w\<lparr>varused := 1\<rparr>)"
proof -
  have v1: "varused_test (w\<lparr>varused := 1\<rparr>) \<noteq> 0" using v by simp
  have again: "write_c p (w\<lparr>varused := 1\<rparr>) va x = Inr (w\<lparr>varused := 1\<rparr>)" for va x
    using write_c_varused [OF v1, of p va x] by simp
  show ?thesis
    using n by (simp add: write_cc_def write_c_varused [OF v] again Let_def)
qed

lemma write_hc_varused:
  assumes n: "1 \<le> n" "n \<le> int (length c)" and v: "varused_test w \<noteq> 0"
  shows "write_hc w indent n c com = Inr w"
  using n v by (simp add: write_hc_def write_h_def Let_def)

text \<open>
  C10, as the claim states it.  A writer in the \<open>varused_test\<close> mode writes nothing:
  \<open>write_cc\<close> and \<open>write_hc\<close> of the five bytes \<open>x = 1\<close> append no \<open>;\<close>, although \<open>1\<close>
  is neither \<open>}\<close> nor \<open>;\<close>.  With merge-back data on, \<open>write_cc\<close> on a new writer is
  undefined within the bounds as well: \<open>write_c("%s%.*s", ...)\<close> has to grow the block
  buffer and formats a second time from the \<open>va_list\<close> it has used, and for an empty
  text \<open>fputs\<close> is handed the buffer that was never allocated.
\<close>

theorem write_cc_write_hc_semicolon_counterexample:
  "(1::int) \<le> 5 \<and> (5::int) \<le> int (length (''x = 1'' @ [NUL]))
   \<and> (''x = 1'' @ [NUL]) ! nat (5 - 1) \<noteq> CHR ''}'' \<and> (''x = 1'' @ [NUL]) ! nat (5 - 1) \<noteq> CHR '';''
   \<and> map_sum id code_file
        (write_cc \<lparr>write_mergeback_data = False, utf8_in_src = False\<rparr>
           (Fd_Code_Writer\<lparr>varused_test := 1\<rparr>) ''  '' 5 (''x = 1'' @ [NUL]) []) = Inr []
   \<and> map_sum id header_file
        (write_hc (Fd_Code_Writer\<lparr>varused_test := 1\<rparr>) ''  '' 5 (''x = 1'' @ [NUL]) []) = Inr []
   \<and> write_cc \<lparr>write_mergeback_data = True, utf8_in_src = False\<rparr> Fd_Code_Writer
        ''  '' 5 (''x = 1'' @ [NUL]) ''// one'' = Inl Va_List_Reused
   \<and> (1::int) \<le> 1 \<and> (1::int) \<le> int (length [NUL])
   \<and> write_cc \<lparr>write_mergeback_data = True, utf8_in_src = False\<rparr> Fd_Code_Writer
        [] 1 [NUL] [] = Inl Null_Pointer"
  by (simp add: write_cc_def write_hc_def write_c_def vwrite_c_def write_h_def crc_vprintf_def
      printf_prec_s_def Fd_Code_Writer_def byte_defs Let_def)

text \<open>
  C10, amended.  \<open>write_cc\<close> and \<open>write_hc\<close> read \<open>c[n-1]\<close> whatever the arguments are:
  unless \<open>n \<ge> 1\<close> and \<open>c\<close> is at least \<open>n\<close> bytes long the read leaves \<open>c\<close> and the call
  is undefined.  Within these bounds a writer in the \<open>varused_test\<close> mode writes nothing
  (\<open>write_cc\<close> sets \<open>varused\<close>).  A writer that is not in this mode writes the indentation
  and the code, then \<open>;\<close> if and only if \<open>c[n-1]\<close> is neither \<open>}\<close> nor \<open>;\<close>, then a space
  and the comment if there is one, then a newline: \<open>write_hc\<close> always, and \<open>write_cc\<close>
  when the block buffer holds the texts it formats (merge-back data is off, or the
  buffer is longer than the code with its indentation and than the comment with its
  space).
\<close>

theorem write_cc_write_hc_semicolon:
  "(n < 1 \<or> int (length c) < n \<longrightarrow>
      isl (write_cc p w indent n c com) \<and> isl (write_hc w indent n c com))
   \<and> (1 \<le> n \<and> n \<le> int (length c) \<and> varused_test w \<noteq> 0 \<longrightarrow>
      write_cc p w indent n c com = Inr (w\<lparr>varused := 1\<rparr>)
      \<and> write_hc w indent n c com = Inr w)
   \<and> (1 \<le> n \<and> n \<le> int (length c) \<and> varused_test w = 0
        \<and> buffer_holds p w (indent @ printf_prec_s n c)
        \<and> buffer_holds p w (CHR '' '' # com) \<longrightarrow>
      (\<exists>w'. write_cc p w indent n c com = Inr w'
         \<and> code_file w' = code_file w @ indent @ printf_prec_s n c
             @ (if c ! nat (n - 1) = CHR ''}'' \<or> c ! nat (n - 1) = CHR '';'' then [] else '';'')
             @ (if com = [] then [] else CHR '' '' # com)
             @ [NL]))
   \<and> (1 \<le> n \<and> n \<le> int (length c) \<and> varused_test w = 0 \<longrightarrow>
      (\<exists>w'. write_hc w indent n c com = Inr w'
         \<and> header_file w' = header_file w @ indent @ printf_prec_s n c
             @ (if c ! nat (n - 1) = CHR ''}'' \<or> c ! nat (n - 1) = CHR '';'' then [] else '';'')
             @ (if com = [] then [] else CHR '' '' # com)
             @ [NL]))"
  using write_cc_outside [of n c p w indent com] write_hc_outside [of n c w indent com]
    write_cc_inside [of n c w p indent com] write_hc_inside [of n c w indent com]
    write_cc_varused [of n c w p indent com] write_hc_varused [of n c w indent com]
  by blast

text \<open>
  The theorem outside the bounds, in the \<open>varused_test\<close> mode, and at the writer that
  \<open>write_c("\n")\<close> leaves of a new one with merge-back data on.
\<close>

theorem write_cc_write_hc_semicolon_witness:
  "isl (write_cc \<lparr>write_mergeback_data = True, utf8_in_src = False\<rparr> Fd_Code_Writer ''  '' 0 ''x = 1'' [])
   \<and> isl (write_hc Fd_Code_Writer ''  '' 0 ''x = 1'' [])
   \<and> write_cc \<lparr>write_mergeback_data = True, utf8_in_src = False\<rparr> (Fd_Code_Writer\<lparr>varused_test := 1\<rparr>)
        ''  '' 5 (''x = 1'' @ [NUL]) ''// one'' = Inr (Fd_Code_Writer\<lparr>varused_test := 1, varused := 1\<rparr>)
   \<and> write_c \<lparr>write_mergeback_data = True, utf8_in_src = False\<rparr> Fd_Code_Writer False [NL]
       = Inr (Fd_Code_Writer\<lparr>code_file := [NL], block_buffer_size := 129\<rparr>)
   \<and> buffer_holds \<lparr>write_mergeback_data = True, utf8_in_src = False\<rparr>
        (Fd_Code_Writer\<lparr>code_file := [NL], block_buffer_size := 129\<rparr>) ''  x = 1''
   \<and> buffer_holds \<lparr>write_mergeback_data = True, utf8_in_src = False\<rparr>
        (Fd_Code_Writer\<lparr>code_file := [NL], block_buffer_size := 129\<rparr>) '' // one''
   \<and> (\<exists>w'. write_cc \<lparr>write_mergeback_data = True, utf8_in_src = False\<rparr>
               (Fd_Code_Writer\<lparr>code_file := [NL], block_buffer_size := 129\<rparr>)
               ''  '' 5 (''x = 1'' @ [NUL]) ''// one'' = Inr w'
         \<and> code_file w' = NL # ''  x = 1; // one'' @ [NL])
   \<and> (\<exists>w'. write_cc \<lparr>write_mergeback_data = True, utf8_in_src = False\<rparr>
               (Fd_Code_Writer\<lparr>code_file := [NL], block_buffer_size := 129\<rparr>)
               [] 2 (''};'' @ [NUL]) [] = Inr w'
         \<and> code_file w' = NL # ''};'' @ [NL])
   \<and> (\<exists>w'. write_hc Fd_Code_Writer ''  '' 3 (''f()'' @ [NUL]) [] = Inr w'
         \<and> header_file w' = ''  f();'' @ [NL])
   \<and> (\<exists>w'. write_hc Fd_Code_Writer [] 4 (''g();'' @ [NUL]) [] = Inr w'
         \<and> header_file w' = ''g();'' @ [NL])"
proof -
  let ?p = "\<lparr>write_mergeback_data = True, utf8_in_src = False\<rparr>"
  let ?w = "Fd_Code_Writer\<lparr>code_file := [NL], block_buffer_size := 129\<rparr>"
  have f: "varused_test Fd_Code_Writer = 0" "header_file Fd_Code_Writer = []"
    "varused_test ?w = 0" "code_file ?w = [NL]"
    "varused_test (Fd_Code_Writer\<lparr>varused_test := 1\<rparr>) \<noteq> 0"
    by (simp_all add: Fd_Code_Writer_def)
  have b: "buffer_holds ?p ?w ''  x = 1''" "buffer_holds ?p ?w '' // one''"
    "buffer_holds ?p ?w ''};''" "buffer_holds ?p ?w '' ''"
    by (simp_all add: buffer_holds_def)
  have "isl (write_cc ?p Fd_Code_Writer ''  '' 0 ''x = 1'' [])
      \<and> isl (write_hc Fd_Code_Writer ''  '' 0 ''x = 1'' [])"
    using write_cc_write_hc_semicolon [of 0 "''x = 1''" ?p Fd_Code_Writer "''  ''" "[]"]
    by simp
  moreover have "write_cc ?p (Fd_Code_Writer\<lparr>varused_test := 1\<rparr>)
        ''  '' 5 (''x = 1'' @ [NUL]) ''// one'' = Inr (Fd_Code_Writer\<lparr>varused_test := 1, varused := 1\<rparr>)"
    using write_cc_write_hc_semicolon [of 5 "''x = 1'' @ [NUL]" ?p
        "Fd_Code_Writer\<lparr>varused_test := 1\<rparr>" "''  ''" "''// one''"] f(5)
    by simp
  moreover have "\<exists>w'. write_cc ?p ?w ''  '' 5 (''x = 1'' @ [NUL]) ''// one'' = Inr w'
         \<and> code_file w' = NL # ''  x = 1; // one'' @ [NL]"
    using write_cc_write_hc_semicolon [of 5 "''x = 1'' @ [NUL]" ?p ?w "''  ''" "''// one''"]
      f(3,4) b
    by (simp add: printf_prec_s_def byte_defs)
  moreover have "\<exists>w'. write_cc ?p ?w [] 2 (''};'' @ [NUL]) [] = Inr w'
         \<and> code_file w' = NL # ''};'' @ [NL]"
    using write_cc_write_hc_semicolon [of 2 "''};'' @ [NUL]" ?p ?w "[]" "[]"] f(3,4) b
    by (simp add: printf_prec_s_def byte_defs)
  moreover have "\<exists>w'. write_hc Fd_Code_Writer ''  '' 3 (''f()'' @ [NUL]) [] = Inr w'
         \<and> header_file w' = ''  f();'' @ [NL]"
    using write_cc_write_hc_semicolon [of 3 "''f()'' @ [NUL]" ?p Fd_Code_Writer "''  ''" "[]"] f(1,2)
    by (simp add: printf_prec_s_def byte_defs)
  moreover have "\<exists>w'. write_hc Fd_Code_Writer [] 4 (''g();'' @ [NUL]) [] = Inr w'
         \<and> header_file w' = ''g();'' @ [NL]"
    using write_cc_write_hc_semicolon [of 4 "''g();'' @ [NUL]" ?p Fd_Code_Writer "[]" "[]"] f(1,2)
    by (simp add: printf_prec_s_def byte_defs)
  ultimately show ?thesis
    using write_c_newline b(1,2) by blast
qed

section \<open>The once-writers\<close>

subsection \<open>The text tree\<close>

lemma strcmp_eq_0: "strcmp a b = 0 \<longleftrightarrow> a = b"
  by (induction a b rule: strcmp.induct) auto

lemma text_tree_add_None: "text_tree_add b t = None \<longleftrightarrow> text_tree_find b t"
  by (induction t) (auto simp: Let_def)

lemma strcmp_self: "strcmp b b = 0"
  by (simp add: strcmp_eq_0)

lemma text_tree_find_add:
  "text_tree_add b t = Some t' \<Longrightarrow> text_tree_find x t' = (x = b \<or> text_tree_find x t)"
proof (induction t arbitrary: t')
  case Text_Null
  then show ?case by (auto simp: Let_def strcmp_eq_0 split: if_splits)
next
  case (Text_Node k l r)
  show ?case
  proof (cases "strcmp b k < 0")
    case True
    with Text_Node.prems obtain l' where l': "text_tree_add b l = Some l'" and t': "t' = Text_Node k l' r"
      by (auto simp: Let_def split: if_splits)
    from Text_Node.IH(1) [OF l'] True show ?thesis
      by (auto simp: t' Let_def strcmp_eq_0 split: if_splits)
  next
    case False
    with Text_Node.prems obtain r' where r': "text_tree_add b r = Some r'" and t': "t' = Text_Node k l r'"
      and ne: "strcmp b k \<noteq> 0"
      by (auto simp: Let_def split: if_splits)
    from Text_Node.IH(2) [OF r'] False ne show ?thesis
      by (auto simp: t' Let_def strcmp_eq_0 split: if_splits)
  qed
qed

subsection \<open>Sequences of calls on one writer\<close>

text \<open>
  What comes "later" on a writer is what a sequence of calls of its member functions
  leaves.  A sequence stops at the first fault.  \<open>Write_c va text\<close> is a call of
  \<open>write_c\<close> whose format and arguments give \<open>text\<close>, with \<open>va\<close> as in \<open>crc_vprintf\<close>.
\<close>

datatype writer_call =
    Write_h_once string
  | Write_c_once string
  | Write_h string
  | Write_c bool string
  | Write_hc string int string string
  | Write_cc string int string string
  | Write_cstring "string option" int
  | Tag int "16 word"

fun run_call :: "project \<Rightarrow> writer_call \<Rightarrow> writer \<Rightarrow> fault + writer" where
  "run_call p (Write_h_once line) w = Inr (snd (write_h_once w line))"
| "run_call p (Write_c_once line) w = bind_fault (write_c_once p w line) (\<lambda>r. Inr (snd r))"
| "run_call p (Write_h text) w = Inr (write_h w text)"
| "run_call p (Write_c va text) w = write_c p w va text"
| "run_call p (Write_hc indent n c com) w = write_hc w indent n c com"
| "run_call p (Write_cc indent n c com) w = write_cc p w indent n c com"
| "run_call p (Write_cstring s len) w = write_cstring p w s len"
| "run_call p (Tag type uid) w = Inr (tag p w type uid)"

fun run_calls :: "project \<Rightarrow> writer_call list \<Rightarrow> writer \<Rightarrow> fault + writer" where
  "run_calls p [] w = Inr w"
| "run_calls p (x # xs) w = bind_fault (run_call p x w) (run_calls p xs)"


text \<open>Only the once-writers assign the two trees.\<close>

definition trees_same :: "writer \<Rightarrow> writer \<Rightarrow> bool" where
  "trees_same w w' = (text_in_header w' = text_in_header w \<and> text_in_code w' = text_in_code w)"

lemma trees_same_refl: "trees_same w w"
  by (simp add: trees_same_def)

lemma trees_same_trans: "trees_same w w1 \<Longrightarrow> trees_same w1 w2 \<Longrightarrow> trees_same w w2"
  by (simp add: trees_same_def)

lemma trees_same_crc_vprintf: "crc_vprintf p w va text = Inr w' \<Longrightarrow> trees_same w w'"
  by (auto simp: crc_vprintf_def trees_same_def Let_def split: if_splits)

lemma trees_same_crc_printf: "crc_printf p w va text = Inr w' \<Longrightarrow> trees_same w w'"
  unfolding crc_printf_def by (rule trees_same_crc_vprintf)

lemma trees_same_write_c: "write_c p w va text = Inr w' \<Longrightarrow> trees_same w w'"
  using trees_same_crc_vprintf [of p w va "text" w']
  by (auto simp: write_c_def vwrite_c_def trees_same_def split: if_splits)

lemma trees_same_write_h: "trees_same w (write_h w text)"
  by (simp add: write_h_def trees_same_def)

lemma trees_same_crc_puts: "trees_same w (crc_puts p w text)"
  by (simp add: crc_puts_def crc_add_str_def trees_same_def Let_def)

lemma trees_same_crc_putc: "crc_putc p w c = Inr w' \<Longrightarrow> trees_same w w'"
  by (auto simp: crc_putc_def crc_putc_done_def trees_same_def Let_def split: if_splits)

lemma trees_same_tag: "trees_same w (tag p w type uid)"
  by (simp add: tag_def trees_same_def Let_def)

lemma bind_fault_Inr_iff:
  "bind_fault r f = Inr y \<longleftrightarrow> (\<exists>x. r = Inr x \<and> f x = Inr y)"
  by (cases r) simp_all

lemmas trees_same_write_cD = trees_same_write_c [unfolded trees_same_def]
lemmas trees_same_crc_putcD = trees_same_crc_putc [unfolded trees_same_def]
lemmas trees_same_crc_printfD = trees_same_crc_printf [unfolded trees_same_def]

lemma trees_same_write_cc: "write_cc p w indent n c com = Inr w' \<Longrightarrow> trees_same w w'"
  by (auto simp: write_cc_def Let_def bind_fault_Inr_iff trees_same_def
      split: if_splits dest!: trees_same_write_cD)

lemma trees_same_write_hc: "write_hc w indent n c com = Inr w' \<Longrightarrow> trees_same w w'"
  by (auto simp: write_hc_def Let_def write_h_def trees_same_def split: if_splits)

lemma cstring_wrap_trees:
  "text_in_header (fst (cstring_wrap p limit s)) = text_in_header (fst s)
   \<and> text_in_code (fst (cstring_wrap p limit s)) = text_in_code (fst s)"
  by (simp add: cstring_wrap_def crc_puts_def crc_add_str_def Let_def)

lemma trees_same_cstring_quoted: "cstring_quoted p c s = Inr s' \<Longrightarrow> trees_same (fst s) (fst s')"
  by (auto simp: cstring_quoted_def Let_def bind_fault_Inr_iff trees_same_def cstring_wrap_trees
      dest!: trees_same_crc_putcD)

lemma trees_same_cstring_plain: "cstring_plain p c s = Inr s' \<Longrightarrow> trees_same (fst s) (fst s')"
  by (auto simp: cstring_plain_def Let_def bind_fault_Inr_iff trees_same_def cstring_wrap_trees
      dest!: trees_same_crc_putcD)

lemma trees_same_cstring_utf8: "cstring_utf8 p c s = Inr s' \<Longrightarrow> trees_same (fst s) (fst s')"
  by (auto simp: cstring_utf8_def Let_def bind_fault_Inr_iff trees_same_def cstring_wrap_trees
      dest!: trees_same_crc_putcD split: if_splits)

lemma trees_same_cstring_octal:
  assumes a: "cstring_octal p c rest after s = Inr s'"
  shows "trees_same (fst s) (fst s')"
proof -
  define s1 where "s1 = cstring_wrap p (octal_limit (of_char c)) s"
  define l2 where "l2 = snd s1 + octal_width (of_char c)"
  have t1: "trees_same (fst s) (fst s1)"
    by (simp add: s1_def trees_same_def cstring_wrap_trees)
  from a obtain w2 where p1: "crc_printf p (fst s1) True (BSLASH # printf_o (of_char c)) = Inr w2"
    and r: "(case (case rest of [] \<Rightarrow> after | x # _ \<Rightarrow> Some x) of
               None \<Rightarrow> Inl Out_Of_Bounds
             | Some x \<Rightarrow>
                 if rest \<noteq> [] \<and> is_hex_digit x then
                   bind_fault (crc_putc p w2 DQUOTE) (\<lambda>w3.
                     let s4 = (if 79 \<le> l2 + 1 then (crc_puts p w3 [NL], 0) else (w3, l2 + 1)) in
                     bind_fault (crc_putc p (fst s4) DQUOTE) (\<lambda>w5. Inr (w5, snd s4 + 1)))
                 else Inr (w2, l2)) = Inr s'"
    unfolding cstring_octal_def Let_def s1_def [symmetric] l2_def [symmetric] bind_fault_Inr_iff
    by blast
  have t2: "trees_same (fst s1) w2"
    using p1 by (rule trees_same_crc_printf)
  obtain x where px: "(case rest of [] \<Rightarrow> after | x # _ \<Rightarrow> Some x) = Some x"
    using r by (cases "case rest of [] \<Rightarrow> after | x # _ \<Rightarrow> Some x") simp_all
  have t3: "trees_same w2 (fst s')"
  proof (cases "rest \<noteq> [] \<and> is_hex_digit x")
    case True
    with r px obtain w3 where q1: "crc_putc p w2 DQUOTE = Inr w3"
      and r2: "bind_fault (crc_putc p (fst (if 79 \<le> l2 + 1 then (crc_puts p w3 [NL], 0) else (w3, l2 + 1))) DQUOTE)
                 (\<lambda>w5. Inr (w5, snd (if 79 \<le> l2 + 1 then (crc_puts p w3 [NL], 0::int) else (w3, l2 + 1)) + 1)) = Inr s'"
      by (auto simp: bind_fault_Inr_iff Let_def)
    define w4 where "w4 = fst (if 79 \<le> l2 + 1 then (crc_puts p w3 [NL], 0::int) else (w3, l2 + 1))"
    have t4: "trees_same w3 w4"
      by (simp add: w4_def trees_same_crc_puts trees_same_refl)
    from r2 obtain w5 where q2: "crc_putc p w4 DQUOTE = Inr w5" and e: "fst s' = w5"
      by (auto simp: bind_fault_Inr_iff w4_def)
    from trees_same_crc_putc [OF q1] t4 trees_same_crc_putc [OF q2] e show ?thesis
      by (simp add: trees_same_def)
  next
    case False
    with r px have "s' = (w2, l2)" by auto
    then show ?thesis by (simp add: trees_same_refl)
  qed
  from t1 t2 t3 show ?thesis by (simp add: trees_same_def)
qed

lemma trees_same_cstring_char:
  "cstring_char p prev c rest after s = Inr s' \<Longrightarrow> trees_same (fst s) (fst s')"
  unfolding cstring_char_def
  by (auto split: if_splits
      dest: trees_same_cstring_quoted trees_same_cstring_plain trees_same_cstring_utf8
        trees_same_cstring_octal)

lemma trees_same_write_cstring_loop:
  "write_cstring_loop p after prev cs s = Inr s' \<Longrightarrow> trees_same (fst s) (fst s')"
proof (induction cs arbitrary: prev s)
  case Nil
  then show ?case by (simp add: trees_same_refl)
next
  case (Cons c cs)
  from Cons.prems obtain s1 where a: "cstring_char p prev c cs after s = Inr s1"
    and b: "write_cstring_loop p after (Some c) cs s1 = Inr s'"
    by (auto simp: bind_fault_Inr_iff)
  from trees_same_cstring_char [OF a] Cons.IH [OF b] show ?case
    by (rule trees_same_trans)
qed

lemma trees_same_write_cstring: "write_cstring p w s len = Inr w' \<Longrightarrow> trees_same w w'"
  by (auto simp: write_cstring_def bind_fault_Inr_iff trees_same_def crc_puts_def
        crc_add_str_def Let_def
      split: if_splits option.splits
      dest!: trees_same_crc_putcD trees_same_crc_printfD
        trees_same_write_cstring_loop [unfolded trees_same_def])

lemma write_h_once_trees:
  assumes "write_h_once w line = (r, w')"
  shows "text_tree_find b (text_in_header w')
       = (text_tree_find b (text_in_header w) \<or> vsnprintf_buf line = b)
     \<and> text_in_code w' = text_in_code w"
proof (cases "text_tree_add (vsnprintf_buf line) (text_in_header w)")
  case None
  with assms have "w' = w" by (simp add: write_h_once_def Let_def)
  with None show ?thesis by (auto simp: text_tree_add_None)
next
  case (Some t)
  with assms have "w' = w\<lparr>header_file := header_file w @ vsnprintf_buf line @ [NL],
      text_in_header := t\<rparr>"
    by (simp add: write_h_once_def Let_def)
  with text_tree_find_add [OF Some, of b] show ?thesis by auto
qed

lemma write_c_once_trees:
  assumes "write_c_once p w line = Inr (r, w')"
  shows "text_in_header w' = text_in_header w
     \<and> (text_tree_find b (text_in_code w') \<longrightarrow>
          text_tree_find b (text_in_code w) \<or> vsnprintf_buf line = b)
     \<and> (text_tree_find b (text_in_code w) \<or> vsnprintf_buf line = b \<longrightarrow>
          text_tree_find b (text_in_code w') \<or> text_tree_find b (text_in_header w'))"
proof (cases "text_tree_find (vsnprintf_buf line) (text_in_header w)")
  case True
  with assms show ?thesis by (auto simp: write_c_once_def Let_def)
next
  case nh: False
  show ?thesis
  proof (cases "text_tree_add (vsnprintf_buf line) (text_in_code w)")
    case None
    with assms nh show ?thesis
      by (auto simp: write_c_once_def Let_def text_tree_add_None)
  next
    case (Some t)
    with assms nh obtain w1 where w1: "crc_printf p w True (vsnprintf_buf line @ [NL]) = Inr w1"
      and w': "w' = w1\<lparr>text_in_code := t\<rparr>"
      by (auto simp: write_c_once_def Let_def bind_fault_Inr_iff)
    from trees_same_crc_printf [OF w1] text_tree_find_add [OF Some, of b] show ?thesis
      by (auto simp: w' trees_same_def)
  qed
qed

lemma run_call_trees:
  assumes "run_call p x w = Inr w'"
  shows "text_tree_find b (text_in_header w')
       = (text_tree_find b (text_in_header w) \<or> (\<exists>l. x = Write_h_once l \<and> vsnprintf_buf l = b))
     \<and> (text_tree_find b (text_in_code w') \<longrightarrow>
          text_tree_find b (text_in_code w) \<or> (\<exists>l. x = Write_c_once l \<and> vsnprintf_buf l = b))
     \<and> (text_tree_find b (text_in_code w) \<or> (\<exists>l. x = Write_c_once l \<and> vsnprintf_buf l = b) \<longrightarrow>
          text_tree_find b (text_in_code w') \<or> text_tree_find b (text_in_header w'))"
proof (cases x)
  case (Write_h_once l)
  with assms have "write_h_once w l = (fst (write_h_once w l), w')"
    by (cases "write_h_once w l") auto
  from write_h_once_trees [OF this, of b] Write_h_once show ?thesis by auto
next
  case (Write_c_once l)
  with assms obtain r where "write_c_once p w l = Inr (r, w')"
    by (auto simp: bind_fault_Inr_iff)
  from write_c_once_trees [OF this, of b] Write_c_once show ?thesis by auto
next
  case (Write_h t)
  with assms trees_same_write_h [of w t] show ?thesis by (auto simp: trees_same_def)
next
  case (Write_c va t)
  with assms trees_same_write_c [of p w va t w'] show ?thesis by (auto simp: trees_same_def)
next
  case (Write_hc i n c com)
  with assms trees_same_write_hc [of w i n c com w'] show ?thesis by (auto simp: trees_same_def)
next
  case (Write_cc i n c com)
  with assms trees_same_write_cc [of p w i n c com w'] show ?thesis by (auto simp: trees_same_def)
next
  case (Write_cstring s len)
  with assms trees_same_write_cstring [of p w s len w'] show ?thesis by (auto simp: trees_same_def)
next
  case (Tag t u)
  with assms trees_same_tag [of w p t u] show ?thesis by (auto simp: trees_same_def)
qed

lemma run_calls_trees:
  "run_calls p cs w = Inr w' \<Longrightarrow>
     text_tree_find b (text_in_header w')
       = (text_tree_find b (text_in_header w) \<or> (\<exists>l. Write_h_once l \<in> set cs \<and> vsnprintf_buf l = b))
     \<and> (text_tree_find b (text_in_code w') \<longrightarrow>
          text_tree_find b (text_in_code w) \<or> (\<exists>l. Write_c_once l \<in> set cs \<and> vsnprintf_buf l = b))
     \<and> (text_tree_find b (text_in_code w) \<or> (\<exists>l. Write_c_once l \<in> set cs \<and> vsnprintf_buf l = b) \<longrightarrow>
          text_tree_find b (text_in_code w') \<or> text_tree_find b (text_in_header w'))"
proof (induction cs arbitrary: w)
  case Nil
  then show ?case by simp
next
  case (Cons x xs)
  from Cons.prems obtain w1 where a: "run_call p x w = Inr w1" and b: "run_calls p xs w1 = Inr w'"
    by (auto simp: bind_fault_Inr_iff)
  from run_call_trees [OF a, of b] Cons.IH [OF b] show ?case
    by (simp only: set_simps insert_iff) blast
qed

lemma Fd_Code_Writer_trees:
  "text_in_header Fd_Code_Writer = Text_Null \<and> text_in_code Fd_Code_Writer = Text_Null"
  by (simp add: Fd_Code_Writer_def)

lemma write_h_once_new:
  "\<not> text_tree_find (vsnprintf_buf line) (text_in_header w) \<Longrightarrow>
   \<exists>w'. write_h_once w line = (1, w')
      \<and> header_file w' = header_file w @ vsnprintf_buf line @ [NL]
      \<and> code_file w' = code_file w"
  by (cases "text_tree_add (vsnprintf_buf line) (text_in_header w)")
    (auto simp: write_h_once_def Let_def text_tree_add_None)

lemma write_h_once_old:
  "text_tree_find (vsnprintf_buf line) (text_in_header w) \<Longrightarrow> write_h_once w line = (0, w)"
  by (cases "text_tree_add (vsnprintf_buf line) (text_in_header w)")
    (auto simp: write_h_once_def Let_def text_tree_add_None [symmetric])

lemma write_c_once_old:
  "text_tree_find (vsnprintf_buf line) (text_in_header w)
     \<or> text_tree_find (vsnprintf_buf line) (text_in_code w) \<Longrightarrow>
   write_c_once p w line = Inr (0, w)"
  by (cases "text_tree_add (vsnprintf_buf line) (text_in_code w)")
    (auto simp: write_c_once_def Let_def text_tree_add_None [symmetric])

lemma write_c_once_new:
  assumes "\<not> text_tree_find (vsnprintf_buf line) (text_in_header w)"
    and "\<not> text_tree_find (vsnprintf_buf line) (text_in_code w)"
    and "buffer_holds p w (vsnprintf_buf line @ [NL])"
  shows "\<exists>w'. write_c_once p w line = Inr (1, w')
      \<and> code_file w' = code_file w @ vsnprintf_buf line @ [NL]
      \<and> header_file w' = header_file w"
proof -
  obtain t where t: "text_tree_add (vsnprintf_buf line) (text_in_code w) = Some t"
    using assms(2) by (cases "text_tree_add (vsnprintf_buf line) (text_in_code w)")
      (auto simp: text_tree_add_None)
  obtain w1 where "crc_printf p w True (vsnprintf_buf line @ [NL]) = Inr w1"
    and "code_file w1 = code_file w @ vsnprintf_buf line @ [NL]"
    and "header_file w1 = header_file w"
    using crc_printf_holds [OF assms(3), of True] by auto
  then show ?thesis
    using assms(1) t by (simp add: write_c_once_def Let_def)
qed

text \<open>
  C8, as the claim states it.  At a line of 1024 bytes the first \<open>write_h_once\<close> reports
  the line as new, but what it writes is the 1023 bytes that \<open>vsnprintf\<close> left in
  \<open>buf\<close> and the newline, not the line.  With merge-back data on, the first
  \<open>write_c_once\<close> on a new writer is undefined: \<open>crc_printf("%s\n", buf)\<close> has to grow
  the block buffer and formats a second time from the \<open>va_list\<close> it has used.
\<close>

theorem once_writers_counterexample:
  "fst (write_h_once Fd_Code_Writer (replicate 1024 (CHR ''a''))) = 1
   \<and> header_file (snd (write_h_once Fd_Code_Writer (replicate 1024 (CHR ''a''))))
       = replicate 1023 (CHR ''a'') @ [NL]
   \<and> header_file (snd (write_h_once Fd_Code_Writer (replicate 1024 (CHR ''a''))))
       \<noteq> replicate 1024 (CHR ''a'') @ [NL]
   \<and> write_c_once \<lparr>write_mergeback_data = True, utf8_in_src = False\<rparr> Fd_Code_Writer
       ''#include <FL/Fl.H>'' = Inl Va_List_Reused"
proof -
  have a: "write_h_once Fd_Code_Writer (replicate 1024 (CHR ''a''))
      = (1, Fd_Code_Writer\<lparr>header_file := replicate 1023 (CHR ''a'') @ [NL],
            text_in_header := Text_Node (replicate 1023 (CHR ''a'')) Text_Null Text_Null\<rparr>)"
    by (simp add: write_h_once_def vsnprintf_buf_def Fd_Code_Writer_def Let_def)
  have "length (replicate 1023 (CHR ''a'') @ [NL]) \<noteq> length (replicate 1024 (CHR ''a'') @ [NL])"
    by simp
  then have b: "replicate 1023 (CHR ''a'') @ [NL] \<noteq> replicate 1024 (CHR ''a'') @ [NL]"
    by metis
  have c: "write_c_once \<lparr>write_mergeback_data = True, utf8_in_src = False\<rparr> Fd_Code_Writer
       ''#include <FL/Fl.H>'' = Inl Va_List_Reused"
    by (simp add: write_c_once_def vsnprintf_buf_def crc_printf_def crc_vprintf_def
        Fd_Code_Writer_def Let_def)
  from a b c show ?thesis by simp
qed


text \<open>
  C8, amended.  Let \<open>w\<close> be the writer after any sequence \<open>cs\<close> of calls on a new
  writer, and \<open>buf\<close> the first 1023 bytes of \<open>line\<close> (all of it when it is shorter than
  1024 bytes).
  \<^item> If no \<open>write_h_once\<close> of \<open>cs\<close> had the same \<open>buf\<close>, \<open>write_h_once\<close> returns 1 and
    appends \<open>buf\<close> and a newline to the header.
  \<^item> If neither a \<open>write_h_once\<close> nor a \<open>write_c_once\<close> of \<open>cs\<close> had the same \<open>buf\<close>,
    and the block buffer holds \<open>buf\<close> with its newline (merge-back data is off, or the
    buffer is longer than the two), \<open>write_c_once\<close> returns 1 and appends \<open>buf\<close> and a
    newline to the source.
  \<^item> After a \<open>write_h_once\<close> with the same \<open>buf\<close>, both \<open>write_h_once\<close> and
    \<open>write_c_once\<close> return 0 and leave the writer as it is.
  \<^item> After a \<open>write_c_once\<close> with the same \<open>buf\<close>, \<open>write_c_once\<close> returns 0 and leaves
    the writer as it is.
\<close>

theorem once_writers:
  assumes h: "run_calls p cs Fd_Code_Writer = Inr w"
  shows
   "(\<not> (\<exists>l. Write_h_once l \<in> set cs \<and> vsnprintf_buf l = vsnprintf_buf line) \<longrightarrow>
       (\<exists>w'. write_h_once w line = (1, w')
          \<and> header_file w' = header_file w @ vsnprintf_buf line @ [NL]
          \<and> code_file w' = code_file w))
    \<and> (\<not> (\<exists>l. (Write_h_once l \<in> set cs \<or> Write_c_once l \<in> set cs)
               \<and> vsnprintf_buf l = vsnprintf_buf line)
        \<and> buffer_holds p w (vsnprintf_buf line @ [NL]) \<longrightarrow>
       (\<exists>w'. write_c_once p w line = Inr (1, w')
          \<and> code_file w' = code_file w @ vsnprintf_buf line @ [NL]
          \<and> header_file w' = header_file w))
    \<and> ((\<exists>l. Write_h_once l \<in> set cs \<and> vsnprintf_buf l = vsnprintf_buf line) \<longrightarrow>
         write_h_once w line = (0, w) \<and> write_c_once p w line = Inr (0, w))
    \<and> ((\<exists>l. Write_c_once l \<in> set cs \<and> vsnprintf_buf l = vsnprintf_buf line) \<longrightarrow>
         write_c_once p w line = Inr (0, w))
    \<and> (length line < 1024 \<longrightarrow> vsnprintf_buf line = line)"
proof -
  have th: "\<not> text_tree_find (vsnprintf_buf line) (text_in_header Fd_Code_Writer)"
    and tc: "\<not> text_tree_find (vsnprintf_buf line) (text_in_code Fd_Code_Writer)"
    by (simp_all add: Fd_Code_Writer_def)
  note t = run_calls_trees [OF h, of "vsnprintf_buf line"]
  have fh: "text_tree_find (vsnprintf_buf line) (text_in_header w)
      = (\<exists>l. Write_h_once l \<in> set cs \<and> vsnprintf_buf l = vsnprintf_buf line)"
    using t th by blast
  have fc1: "text_tree_find (vsnprintf_buf line) (text_in_code w) \<Longrightarrow>
      \<exists>l. Write_c_once l \<in> set cs \<and> vsnprintf_buf l = vsnprintf_buf line"
    using t tc by blast
  have fc2: "\<exists>l. Write_c_once l \<in> set cs \<and> vsnprintf_buf l = vsnprintf_buf line \<Longrightarrow>
      text_tree_find (vsnprintf_buf line) (text_in_code w)
      \<or> text_tree_find (vsnprintf_buf line) (text_in_header w)"
    using t by blast
  have a: "\<not> (\<exists>l. Write_h_once l \<in> set cs \<and> vsnprintf_buf l = vsnprintf_buf line) \<longrightarrow>
       (\<exists>w'. write_h_once w line = (1, w')
          \<and> header_file w' = header_file w @ vsnprintf_buf line @ [NL]
          \<and> code_file w' = code_file w)"
    using write_h_once_new [of line w] fh by blast
  have b: "\<not> (\<exists>l. (Write_h_once l \<in> set cs \<or> Write_c_once l \<in> set cs)
               \<and> vsnprintf_buf l = vsnprintf_buf line)
        \<and> buffer_holds p w (vsnprintf_buf line @ [NL]) \<longrightarrow>
       (\<exists>w'. write_c_once p w line = Inr (1, w')
          \<and> code_file w' = code_file w @ vsnprintf_buf line @ [NL]
          \<and> header_file w' = header_file w)"
    using write_c_once_new [of line w p] fh fc1 by blast
  have c: "(\<exists>l. Write_h_once l \<in> set cs \<and> vsnprintf_buf l = vsnprintf_buf line) \<longrightarrow>
         write_h_once w line = (0, w) \<and> write_c_once p w line = Inr (0, w)"
    using write_h_once_old [of line w] write_c_once_old [of line w p] fh by blast
  have d: "(\<exists>l. Write_c_once l \<in> set cs \<and> vsnprintf_buf l = vsnprintf_buf line) \<longrightarrow>
         write_c_once p w line = Inr (0, w)"
    using write_c_once_old [of line w p] fc2 by blast
  have e: "length line < 1024 \<longrightarrow> vsnprintf_buf line = line"
    by (simp add: vsnprintf_buf_def)
  from a b c d e show ?thesis by blast
qed

text \<open>
  The theorem at an include line, with merge-back data on: on a new writer for
  \<open>write_h_once\<close>; for \<open>write_c_once\<close> on the writer that \<open>write_c("\n")\<close> leaves of a
  new one, whose block buffer has 129 bytes; then after the line was written.
\<close>

theorem once_writers_witness:
  "(\<exists>w'. write_h_once Fd_Code_Writer ''#include <FL/Fl.H>'' = (1, w')
        \<and> header_file w' = ''#include <FL/Fl.H>'' @ [NL])
   \<and> (\<exists>w. run_calls \<lparr>write_mergeback_data = True, utf8_in_src = False\<rparr>
              [Write_c False [NL]] Fd_Code_Writer = Inr w
        \<and> block_buffer_size w = 129
        \<and> buffer_holds \<lparr>write_mergeback_data = True, utf8_in_src = False\<rparr> w
              (''#include <FL/Fl.H>'' @ [NL])
        \<and> (\<exists>w'. write_c_once \<lparr>write_mergeback_data = True, utf8_in_src = False\<rparr> w
                   ''#include <FL/Fl.H>'' = Inr (1, w')
              \<and> code_file w' = NL # ''#include <FL/Fl.H>'' @ [NL]))
   \<and> (\<exists>w. run_calls \<lparr>write_mergeback_data = True, utf8_in_src = False\<rparr>
              [Write_h_once ''#include <FL/Fl.H>'', Write_c False [NL]] Fd_Code_Writer = Inr w
        \<and> write_h_once w ''#include <FL/Fl.H>'' = (0, w)
        \<and> write_c_once \<lparr>write_mergeback_data = True, utf8_in_src = False\<rparr> w
              ''#include <FL/Fl.H>'' = Inr (0, w))
   \<and> (\<exists>w. run_calls \<lparr>write_mergeback_data = True, utf8_in_src = False\<rparr>
              [Write_c False [NL], Write_c_once ''#include <FL/Fl.H>''] Fd_Code_Writer = Inr w
        \<and> write_c_once \<lparr>write_mergeback_data = True, utf8_in_src = False\<rparr> w
              ''#include <FL/Fl.H>'' = Inr (0, w))"
proof -
  let ?p = "\<lparr>write_mergeback_data = True, utf8_in_src = False\<rparr>"
  let ?l = "''#include <FL/Fl.H>''"
  let ?w = "Fd_Code_Writer\<lparr>code_file := [NL], block_buffer_size := 129\<rparr>"
  have b: "vsnprintf_buf ?l = ?l" by (simp add: vsnprintf_buf_def)
  have f: "header_file Fd_Code_Writer = []" "code_file ?w = [NL]" "block_buffer_size ?w = 129"
    "text_in_header ?w = Text_Null" "text_in_code ?w = Text_Null"
    by (simp_all add: Fd_Code_Writer_def)
  have bh: "buffer_holds ?p ?w (?l @ [NL])"
    by (simp add: buffer_holds_def)
  have r0: "run_calls ?p [] Fd_Code_Writer = Inr Fd_Code_Writer" by simp
  have r1: "run_calls ?p [Write_c False [NL]] Fd_Code_Writer = Inr ?w"
    by (simp add: write_c_newline)
  obtain w2 where r2: "run_calls ?p [Write_h_once ?l, Write_c False [NL]] Fd_Code_Writer = Inr w2"
    by (simp add: write_c_def vwrite_c_def crc_vprintf_def Fd_Code_Writer_def write_h_once_def
        Let_def)
  obtain w3' where "write_c_once ?p ?w ?l = Inr (1, w3')"
    using write_c_once_new [of ?l ?w ?p] bh by (auto simp: b f)
  then have r3: "run_calls ?p [Write_c False [NL], Write_c_once ?l] Fd_Code_Writer = Inr w3'"
    by (simp add: write_c_newline)
  from once_writers [OF r0, of ?l] have
    "\<exists>w'. write_h_once Fd_Code_Writer ?l = (1, w') \<and> header_file w' = ?l @ [NL]"
    by (auto simp: b f)
  moreover from once_writers [OF r1, of ?l] bh have
    "\<exists>w'. write_c_once ?p ?w ?l = Inr (1, w') \<and> code_file w' = NL # ?l @ [NL]"
    by (auto simp: b f)
  moreover from once_writers [OF r2, of ?l] have
    "write_h_once w2 ?l = (0, w2) \<and> write_c_once ?p w2 ?l = Inr (0, w2)"
    by auto
  moreover from once_writers [OF r3, of ?l] have "write_c_once ?p w3' ?l = Inr (0, w3')"
    by auto
  ultimately show ?thesis using r1 r2 r3 bh f(3) by blast
qed

section \<open>Merge-back\<close>

subsection \<open>unindent\<close>

text \<open>
  \<open>unindent(char *s)\<close> works in place on \<open>block\<close>, the \<open>bsize\<close> bytes read from the file,
  which \<open>unindent_block\<close> has ended with a NUL.  \<open>m\<close> is the memory from the read
  pointer \<open>s\<close> to the end of that buffer; a read behind it is outside the object.  The
  write pointer \<open>d\<close> never passes \<open>s\<close>, so the bytes written are kept apart as \<open>out\<close>.
  When \<open>*d++ = *s++\<close> copies a NUL the loop goes on behind it.
\<close>

definition skip_space :: "string \<Rightarrow> string" where
  "skip_space m = (case m of [] \<Rightarrow> [] | c # r \<Rightarrow> if isspace c then r else m)"

lemma length_skip_space: "length (skip_space m) \<le> length m"
  by (cases m) (simp_all add: skip_space_def)

function unindent_loop :: "bool \<Rightarrow> string \<Rightarrow> string \<Rightarrow> fault + string" where
  "unindent_loop line_start [] out = Inl Out_Of_Bounds"
| "unindent_loop line_start (c # cs) out =
     (if c = NUL then Inr out
      else
        (let m2 = (if line_start then skip_space (skip_space (c # cs)) else c # cs);
             m3 = (case m2 of [] \<Rightarrow> [] | x # r \<Rightarrow> if x = CR then r else m2)
         in case m3 of
              [] \<Rightarrow> Inl Out_Of_Bounds
            | x # r \<Rightarrow> unindent_loop (x = NL) r (out @ [x])))"
  by pat_completeness auto
termination
proof (relation "measure (\<lambda>(line_start, m, out). length m)")
  show "wf (measure (\<lambda>(line_start, m, out). length m))" by simp
next
  fix line_start :: bool and c :: char and cs out :: string and m2 m3 :: string and x :: char and r :: string
  assume m2: "m2 = (if line_start then skip_space (skip_space (c # cs)) else c # cs)"
    and m3: "m3 = (case m2 of [] \<Rightarrow> [] | x # r \<Rightarrow> if x = CR then r else m2)"
    and xr: "m3 = x # r"
  have "length m2 \<le> Suc (length cs)"
    using length_skip_space [of "skip_space (c # cs)"] length_skip_space [of "c # cs"]
    by (simp add: m2)
  moreover have "length m3 \<le> length m2"
    by (cases m2) (simp_all add: m3)
  ultimately have "length r < Suc (length cs)"
    using xr by simp
  then show "((x = NL, r, out @ [x]), (line_start, c # cs, out))
      \<in> measure (\<lambda>(line_start, m, out). length m)"
    by simp
qed

text \<open>The block as a C string after \<open>unindent\<close>: what stands before its first NUL.\<close>

definition unindent :: "string \<Rightarrow> fault + string" where
  "unindent block =
     (case unindent_loop True (block @ [NUL]) [] of
        Inl e \<Rightarrow> Inl e
      | Inr out \<Rightarrow> Inr (takeWhile (\<lambda>c. c \<noteq> NUL) out))"

text \<open>
  \<open>unindent_block(f, start, end)\<close>: \<open>malloc(bsize+1)\<close> and \<open>fread\<close> of \<open>bsize\<close> bytes need
  \<open>bsize = end - start \<ge> 0\<close>.
\<close>

definition unindent_block :: "string \<Rightarrow> nat \<Rightarrow> nat \<Rightarrow> fault + string" where
  "unindent_block f start end' =
     (if end' < start then Inl Out_Of_Bounds
      else unindent (take (end' - start) (drop start f)))"

text \<open>
  The un-indent rule in the specification's words: up to two leading white-space bytes
  of every line are dropped, and every \<open>\r\<close>; a \<open>\n\<close> ends its line and stays.  \<open>k\<close>
  counts the bytes dropped in the line so far and is 2 once the line has begun.
\<close>

fun unindent_rule :: "nat \<Rightarrow> string \<Rightarrow> string" where
  "unindent_rule k [] = []"
| "unindent_rule k (c # cs) =
     (if c = CR then unindent_rule k cs
      else if c = NL then c # unindent_rule 0 cs
      else if k < 2 \<and> isspace c then unindent_rule (Suc k) cs
      else c # unindent_rule 2 cs)"

subsection \<open>The design tree\<close>

text \<open>
  Modelled from the spec: \<open>Fl_Type\<close>, its list from \<open>Fl_Type::first\<close> along \<open>next\<close>, and
  \<open>Fl_Type::find_by_uid\<close> are not in \<open>code.cxx\<close>.  The specification's collaborator
  contract gives every node a 16-bit \<open>uid\<close>, a tree-wide lookup by uid, the capability
  \<open>is_true_widget()\<close>, the kind \<open>Code\<close> (\<open>is_a(ID_Code)\<close>), \<open>set_callback(text)\<close> for
  widget nodes (\<open>tp->callback(text)\<close>) and \<open>set_body(text)\<close> for code nodes
  (\<open>tp->name(text)\<close>).
\<close>

record Fl_Type =
  uid :: "16 word"
  is_code :: bool
  is_true_widget :: bool
  name :: string
  callback :: string

text \<open>Modelled from the spec: the first node with the uid, as its place in the list.\<close>

fun find_by_uid :: "Fl_Type list \<Rightarrow> 16 word \<Rightarrow> nat option" where
  "find_by_uid [] u = None"
| "find_by_uid (t # ts) u = (if uid t = u then Some 0 else map_option Suc (find_by_uid ts u))"

text \<open>Modelled from the spec: the two setters replace the stored text of one node.\<close>

definition set_callback :: "Fl_Type list \<Rightarrow> nat \<Rightarrow> string \<Rightarrow> Fl_Type list" where
  "set_callback ts i text = ts[i := (ts ! i)\<lparr>callback := text\<rparr>]"

definition set_name :: "Fl_Type list \<Rightarrow> nat \<Rightarrow> string \<Rightarrow> Fl_Type list" where
  "set_name ts i text = ts[i := (ts ! i)\<lparr>name := text\<rparr>]"

subsection \<open>Reading the file\<close>

text \<open>
  \<open>fgets(line, 1023, code)\<close> stores at most 1022 bytes and stops behind a newline;
  \<open>fgets_line k\<close> is what it stores when \<open>k\<close> bytes are allowed.  \<open>read_lines\<close> are the
  lines that the calls of \<open>fgets\<close> return one after the other, until it returns 0 at the
  end of the file.
\<close>

fun fgets_line :: "nat \<Rightarrow> string \<Rightarrow> string" where
  "fgets_line 0 f = []"
| "fgets_line (Suc k) [] = []"
| "fgets_line (Suc k) (c # cs) = c # (if c = NL then [] else fgets_line k cs)"

lemma fgets_line_not_empty: "0 < k \<Longrightarrow> f \<noteq> [] \<Longrightarrow> fgets_line k f \<noteq> []"
  by (cases k; cases f) simp_all

function read_lines :: "string \<Rightarrow> string list" where
  "read_lines f =
     (if f = [] then []
      else fgets_line 1022 f # read_lines (drop (length (fgets_line 1022 f)) f))"
  by pat_completeness auto
termination
proof (relation "measure length")
  show "wf (measure length)" by simp
next
  fix f :: string
  assume "f \<noteq> []"
  then have "fgets_line 1022 f \<noteq> []"
    by (simp add: fgets_line_not_empty)
  then have "0 < length (fgets_line 1022 f)" by simp
  with \<open>f \<noteq> []\<close> show "(drop (length (fgets_line 1022 f)) f, f) \<in> measure length"
    by simp
qed

declare read_lines.simps [simp del]

text \<open>\<open>strstr\<close> on C strings: the rest of \<open>s\<close> from the first place where \<open>t\<close> stands.\<close>

fun strstr :: "string \<Rightarrow> string \<Rightarrow> string option" where
  "strstr [] t = (if t = [] then Some [] else None)"
| "strstr (c # cs) t = (if take (length t) (c # cs) = t then Some (c # cs) else strstr cs t)"

subsection \<open>The scan of one pass\<close>

definition FD_TAG_GENERIC :: int where "FD_TAG_GENERIC = 0"
definition FD_TAG_CODE :: int where "FD_TAG_CODE = 1"
definition FD_TAG_MENU_CALLBACK :: int where "FD_TAG_MENU_CALLBACK = 2"
definition FD_TAG_WIDGET_CALLBACK :: int where "FD_TAG_WIDGET_CALLBACK = 3"
definition FD_TAG_LAST :: int where "FD_TAG_LAST = 3"

definition FD_MERGEBACK_CHECK :: int where "FD_MERGEBACK_CHECK = 0"
definition FD_MERGEBACK_INTERACTIVE :: int where "FD_MERGEBACK_INTERACTIVE = 1"
definition FD_MERGEBACK_GO :: int where "FD_MERGEBACK_GO = 2"
definition FD_MERGEBACK_GO_SAFE :: int where "FD_MERGEBACK_GO_SAFE = 3"

lemmas FD_defs = FD_TAG_GENERIC_def FD_TAG_CODE_def FD_TAG_MENU_CALLBACK_def
  FD_TAG_WIDGET_CALLBACK_def FD_TAG_LAST_def FD_MERGEBACK_CHECK_def
  FD_MERGEBACK_INTERACTIVE_def FD_MERGEBACK_GO_def FD_MERGEBACK_GO_SAFE_def

text \<open>
  \<open>sscanf(tag, "//~fl~%d~%04x~%08lx~~", &type, &uid, &crc)\<close> is the C library's and a
  parameter of the model: a function from the text at \<open>tag\<close> to the value \<open>n\<close> that
  \<open>sscanf\<close> returns and the three variables after the call (\<open>-1\<close>, \<open>0\<close> and \<open>0\<close> where
  nothing was assigned).
\<close>

type_synonym sscanf_tag = "string \<Rightarrow> int \<times> int \<times> int \<times> nat"

text \<open>
  The variables of one pass of the outer loop: the writer (for \<open>block_crc_\<close> and
  \<open>block_line_start_\<close>), the tree, the locals of the loop body, \<open>changed\<close>, and the file
  position \<open>ftell(code)\<close> as \<open>here\<close>.  The \<open>int\<close> counters are 32-bit words.  Two fields
  record what the pass did and are not variables of the source: \<open>edits\<close>, the calls
  \<open>tp->callback(text)\<close> and \<open>tp->name(text)\<close> with the uid of \<open>tp\<close>, and \<open>fgets_calls\<close>.
\<close>

record scan =
  writer_of :: writer
  tree :: "Fl_Type list"
  line_no :: "32 word"
  block_start :: nat
  block_end :: nat
  here :: nat
  num_changed_code :: "32 word"
  num_changed_callback :: "32 word"
  num_changed_structure :: "32 word"
  num_uid_not_found :: "32 word"
  tag_error :: int
  changed :: bool
  edits :: "(16 word \<times> string) list"
  fgets_calls :: nat

text \<open>The branch \<open>if (block_crc_ != crc)\<close>: the block differs from what was generated.\<close>

definition merge_block :: "int \<Rightarrow> string \<Rightarrow> int \<Rightarrow> int \<Rightarrow> scan \<Rightarrow> fault + scan" where
  "merge_block task f type u sc =
     (if task = FD_MERGEBACK_GO then
        (if type = FD_TAG_MENU_CALLBACK \<or> type = FD_TAG_WIDGET_CALLBACK then
           (case find_by_uid (tree sc) (word_of_int u) of
              None \<Rightarrow> Inr sc
            | Some i \<Rightarrow>
                if is_true_widget (tree sc ! i) then
                  bind_fault (unindent_block f (block_start sc) (block_end sc)) (\<lambda>text.
                    Inr (sc\<lparr>tree := set_callback (tree sc) i text, changed := True,
                            edits := edits sc @ [(word_of_int u, text)]\<rparr>))
                else Inr sc)
         else if type = FD_TAG_CODE then
           (case find_by_uid (tree sc) (word_of_int u) of
              None \<Rightarrow> Inr sc
            | Some i \<Rightarrow>
                if is_code (tree sc ! i) then
                  bind_fault (unindent_block f (block_start sc) (block_end sc)) (\<lambda>text.
                    Inr (sc\<lparr>tree := set_name (tree sc) i text, changed := True,
                            edits := edits sc @ [(word_of_int u, text)]\<rparr>))
                else Inr sc)
         else Inr sc)
      else
        (let sc1 =
           (if type = FD_TAG_GENERIC
              then sc\<lparr>num_changed_structure := num_changed_structure sc + 1\<rparr>
            else if type = FD_TAG_CODE
              then sc\<lparr>num_changed_code := num_changed_code sc + 1\<rparr>
            else if type = FD_TAG_MENU_CALLBACK \<or> type = FD_TAG_WIDGET_CALLBACK
              then sc\<lparr>num_changed_callback := num_changed_callback sc + 1\<rparr>
            else sc);
             find_node = (type = FD_TAG_CODE \<or> type = FD_TAG_MENU_CALLBACK
                           \<or> type = FD_TAG_WIDGET_CALLBACK)
         in Inr (if find_node \<and> find_by_uid (tree sc1) (word_of_int u) = None
                 then sc1\<lparr>num_uid_not_found := num_uid_not_found sc1 + 1\<rparr> else sc1)))"

text \<open>
  The body of the inner loop for the line \<open>chunk\<close> that \<open>fgets\<close> has returned.  The
  result says whether the loop ends here (\<open>break\<close> after a tag error).
\<close>

definition merge_line :: "sscanf_tag \<Rightarrow> int \<Rightarrow> string \<Rightarrow> string \<Rightarrow> scan \<Rightarrow> fault + scan \<times> bool" where
  "merge_line sscanf task f chunk sc =
     (let sc1 = sc\<lparr>here := here sc + length chunk, line_no := line_no sc + 1,
                   fgets_calls := fgets_calls sc + 1\<rparr>;
          line = takeWhile (\<lambda>c. c \<noteq> NUL) chunk
      in case strstr line ''//~fl~'' of
           None \<Rightarrow>
             Inr (sc1\<lparr>writer_of := crc_add_str (writer_of sc1) line, block_end := here sc1\<rparr>,
                  False)
         | Some at_tag \<Rightarrow>
             (case sscanf at_tag of (n, type, u, crc) \<Rightarrow>
                if n \<noteq> 3 \<or> type < 0 \<or> FD_TAG_LAST < type then Inr (sc1\<lparr>tag_error := 1\<rparr>, True)
                else
                  bind_fault
                    (if unat (block_crc (writer_of sc1)) \<noteq> crc
                     then merge_block task f type u sc1 else Inr sc1)
                    (\<lambda>sc2. Inr (sc2\<lparr>writer_of := (writer_of sc2)\<lparr>block_crc := crc32_init,
                                        block_line_start := True\<rparr>,
                                      block_start := here sc2\<rparr>, False))))"

text \<open>The inner loop \<open>for (;;)\<close> over the lines still to read.\<close>

fun scan_lines :: "sscanf_tag \<Rightarrow> int \<Rightarrow> string \<Rightarrow> string list \<Rightarrow> scan \<Rightarrow> fault + scan" where
  "scan_lines sscanf task f [] sc = Inr (sc\<lparr>fgets_calls := fgets_calls sc + 1\<rparr>)"
| "scan_lines sscanf task f (chunk # chunks) sc =
     (case merge_line sscanf task f chunk sc of
        Inl e \<Rightarrow> Inl e
      | Inr (sc', stop) \<Rightarrow> if stop then Inr sc' else scan_lines sscanf task f chunks sc')"

subsection \<open>merge_back\<close>

text \<open>
  What \<open>merge_back\<close> leaves: the value it returns, the writer, the tree, and records of
  what it did to the world around it (\<open>undo_checkpoint()\<close>, \<open>fl_fopen\<close>, \<open>fgets\<close>, the
  dialogs \<open>fl_message\<close> and \<open>fl_choice\<close>, \<open>set_modflag(1)\<close> with \<open>propagate_load\<close>, and
  the edits of the tree).
\<close>

record merged =
  ret :: int
  m_writer :: writer
  m_tree :: "Fl_Type list"
  m_changed :: bool
  m_edits :: "(16 word \<times> string) list"
  undo_checkpoints :: nat
  fopen_calls :: nat
  m_fgets_calls :: nat
  dialogs :: nat
  modflag_set :: bool

definition merge_start :: "writer \<Rightarrow> Fl_Type list \<Rightarrow> merged" where
  "merge_start w ts = \<lparr> ret = 0, m_writer = w, m_tree = ts, m_changed = False, m_edits = [],
     undo_checkpoints = 0, fopen_calls = 0, m_fgets_calls = 0, dialogs = 0,
     modflag_set = False \<rparr>"

text \<open>The start of a pass: the locals at 0, the CRC reset, the file rewound.\<close>

definition scan_start :: "merged \<Rightarrow> scan" where
  "scan_start m = \<lparr> writer_of = (m_writer m)\<lparr>block_crc := crc32_init, block_line_start := True\<rparr>,
     tree = m_tree m, line_no = 0, block_start = 0, block_end = 0, here = 0,
     num_changed_code = 0, num_changed_callback = 0, num_changed_structure = 0,
     num_uid_not_found = 0, tag_error = 0, changed = False, edits = m_edits m,
     fgets_calls = m_fgets_calls m \<rparr>"

definition scan_done :: "merged \<Rightarrow> scan \<Rightarrow> merged" where
  "scan_done m sc = m\<lparr>m_writer := writer_of sc, m_tree := tree sc, m_changed := changed sc,
     m_edits := edits sc, m_fgets_calls := fgets_calls sc\<rparr>"

text \<open>The four \<open>ret |= ...\<close> of \<open>FD_MERGEBACK_CHECK\<close>.\<close>

definition check_bits :: "int \<Rightarrow> scan \<Rightarrow> int" where
  "check_bits r sc =
     (let r1 = (if num_changed_structure sc \<noteq> 0 then r OR 1 else r);
          r2 = (if num_changed_code sc \<noteq> 0 then r1 OR 2 else r1);
          r3 = (if num_changed_callback sc \<noteq> 0 then r2 OR 4 else r2)
      in if num_uid_not_found sc \<noteq> 0 then r3 OR 8 else r3)"

text \<open>
  The outer loop \<open>for (iter = 0; ; ++iter)\<close>.  It has no bound: with a task that is none
  of the four, no branch leaves it.  \<open>fl_choice\<close>, the answer of the user to the dialog
  that shows the four counters, is a parameter.
\<close>

partial_function (option) merge_back_loop ::
  "sscanf_tag \<Rightarrow> (32 word \<Rightarrow> 32 word \<Rightarrow> 32 word \<Rightarrow> 32 word \<Rightarrow> int) \<Rightarrow> string \<Rightarrow> int \<Rightarrow> merged
    \<Rightarrow> (fault + merged) option" where
  "merge_back_loop sscanf fl_choice f task m =
     (let m1 = (if task = FD_MERGEBACK_GO
                then m\<lparr>undo_checkpoints := undo_checkpoints m + 1\<rparr> else m)
      in case scan_lines sscanf task f (read_lines f) (scan_start m1) of
           Inl e \<Rightarrow> Some (Inl e)
         | Inr sc \<Rightarrow>
             (let m2 = scan_done m1 sc in
              if task = FD_MERGEBACK_CHECK then
                (if tag_error sc \<noteq> 0 then Some (Inr (m2\<lparr>ret := - 1\<rparr>))
                 else Some (Inr (m2\<lparr>ret := check_bits (ret m2) sc\<rparr>)))
              else if task = FD_MERGEBACK_INTERACTIVE then
                (if tag_error sc \<noteq> 0
                   then Some (Inr (m2\<lparr>ret := - 1, dialogs := dialogs m2 + 1\<rparr>))
                 else if num_changed_code sc = 0 \<and> num_changed_callback sc = 0
                     \<and> num_changed_structure sc = 0
                   then Some (Inr (m2\<lparr>ret := 0\<rparr>))
                 else if num_changed_structure sc \<noteq> 0
                     \<and> num_changed_code sc = 0 \<and> num_changed_callback sc = 0
                   then Some (Inr (m2\<lparr>ret := - 1, dialogs := dialogs m2 + 1\<rparr>))
                 else if fl_choice (num_changed_code sc) (num_changed_callback sc)
                           (num_uid_not_found sc) (num_changed_structure sc) = 0
                   then Some (Inr (m2\<lparr>ret := 1, dialogs := dialogs m2 + 1\<rparr>))
                 else merge_back_loop sscanf fl_choice f FD_MERGEBACK_GO
                        (m2\<lparr>dialogs := dialogs m2 + 1\<rparr>))
              else if task = FD_MERGEBACK_GO then
                Some (Inr (if changed sc then m2\<lparr>ret := 1\<rparr> else m2))
              else if task = FD_MERGEBACK_GO_SAFE then
                (if tag_error sc \<noteq> 0 \<or> num_changed_structure sc \<noteq> 0
                   then Some (Inr (m2\<lparr>ret := - 1\<rparr>))
                 else if num_changed_code sc = 0 \<and> num_changed_callback sc = 0
                   then Some (Inr (m2\<lparr>ret := 0\<rparr>))
                 else merge_back_loop sscanf fl_choice f FD_MERGEBACK_GO m2)
              else merge_back_loop sscanf fl_choice f task m2))"

text \<open>
  \<open>merge_back(s, task)\<close>.  \<open>fs\<close> maps a path to the bytes of the file that \<open>fl_fopen\<close>
  opens for reading, or to \<open>None\<close> where it returns NULL.
\<close>

definition merge_back ::
  "project \<Rightarrow> (string \<Rightarrow> string option) \<Rightarrow> sscanf_tag
    \<Rightarrow> (32 word \<Rightarrow> 32 word \<Rightarrow> 32 word \<Rightarrow> 32 word \<Rightarrow> int)
    \<Rightarrow> writer \<Rightarrow> Fl_Type list \<Rightarrow> string \<Rightarrow> int \<Rightarrow> (fault + merged) option" where
  "merge_back p fs sscanf fl_choice w ts s task =
     (if \<not> write_mergeback_data p then Some (Inr (merge_start w ts))
      else
        (case fs s of
           None \<Rightarrow> Some (Inr ((merge_start w ts)\<lparr>fopen_calls := 1\<rparr>))
         | Some f \<Rightarrow>
             (case merge_back_loop sscanf fl_choice f task ((merge_start w ts)\<lparr>fopen_calls := 1\<rparr>) of
                None \<Rightarrow> None
              | Some (Inl e) \<Rightarrow> Some (Inl e)
              | Some (Inr m) \<Rightarrow> Some (Inr (m\<lparr>modflag_set := m_changed m\<rparr>)))))"

subsection \<open>A tag scanner for the examples\<close>

text \<open>
  A model of \<open>sscanf\<close> on the tag format, for the closed examples below; the theorems
  hold for every \<open>sscanf\<close>.  It reads the tag lines that \<open>tag()\<close> writes: a decimal
  number, \<open>~\<close>, up to four hexadecimal digits, \<open>~\<close>, up to eight hexadecimal digits,
  white space skipped in front of each number.  What stands behind the third number is
  not looked at, as the value \<open>sscanf\<close> returns does not depend on it.  Of what \<open>%d\<close>
  and \<open>%x\<close> accept besides, the sign and the \<open>0x\<close> of \<open>%x\<close> and numbers too large for
  their type are left out.
\<close>

definition is_dec_digit :: "char \<Rightarrow> bool" where
  "is_dec_digit c = (48 \<le> (of_char c :: nat) \<and> (of_char c :: nat) \<le> 57)"

definition hex_digit_value :: "char \<Rightarrow> nat" where
  "hex_digit_value c =
     (let v = (of_char c :: nat) in
      if v \<le> 57 then v - 48 else if 97 \<le> v then v - 87 else v - 55)"

definition scan_int :: "string \<Rightarrow> (int \<times> string) option" where
  "scan_int s =
     (let s1 = dropWhile isspace s;
          neg = (take 1 s1 = ''-'');
          s2 = (if take 1 s1 = ''-'' \<or> take 1 s1 = ''+'' then drop 1 s1 else s1);
          ds = takeWhile is_dec_digit s2
      in if ds = [] then None
         else Some ((if neg then - 1 else 1) * int (foldl (\<lambda>v c. 10 * v + (of_char c - 48)) 0 ds),
                    drop (length ds) s2))"

definition scan_hex :: "nat \<Rightarrow> string \<Rightarrow> (nat \<times> string) option" where
  "scan_hex width s =
     (let s1 = dropWhile isspace s;
          ds = takeWhile is_hex_digit (take width s1)
      in if ds = [] then None
         else Some (foldl (\<lambda>v c. 16 * v + hex_digit_value c) 0 ds, drop (length ds) s1))"

definition sscanf_model :: sscanf_tag where
  "sscanf_model t =
     (case scan_int (drop 6 t) of
        None \<Rightarrow> (if dropWhile isspace (drop 6 t) = [] then - 1 else 0, - 1, 0, 0)
      | Some (type, s1) \<Rightarrow>
          if take 1 s1 \<noteq> ''~'' then (1, type, 0, 0)
          else
            (case scan_hex 4 (drop 1 s1) of
               None \<Rightarrow> (1, type, 0, 0)
             | Some (u, s2) \<Rightarrow>
                 if take 1 s2 \<noteq> ''~'' then (2, type, int u, 0)
                 else
                   (case scan_hex 8 (drop 1 s2) of
                      None \<Rightarrow> (2, type, int u, 0)
                    | Some (crc, s3) \<Rightarrow> (3, type, int u, crc))))"


section \<open>Merge-back when it is switched off or the file cannot be opened\<close>

text \<open>
  C9.  For every path and every task (every \<open>int\<close>): if \<open>write_mergeback_data\<close> is false,
  \<open>merge_back\<close> returns 0 and has not called \<open>fl_fopen\<close> or \<open>fgets\<close>, and the tree and the
  writer are as they were; if \<open>fl_fopen\<close> returns NULL, it returns 0 just so, with the
  one call of \<open>fl_fopen\<close> made.
\<close>

theorem merge_back_off_or_unreadable:
  "(\<not> write_mergeback_data p \<longrightarrow>
      (\<exists>m. merge_back p fs sscanf fl_choice w ts s task = Some (Inr m)
         \<and> ret m = 0 \<and> m_tree m = ts \<and> m_writer m = w \<and> m_edits m = []
         \<and> fopen_calls m = 0 \<and> m_fgets_calls m = 0 \<and> \<not> modflag_set m))
   \<and> (fs s = None \<longrightarrow>
      (\<exists>m. merge_back p fs sscanf fl_choice w ts s task = Some (Inr m)
         \<and> ret m = 0 \<and> m_tree m = ts \<and> m_writer m = w \<and> m_edits m = []
         \<and> m_fgets_calls m = 0 \<and> \<not> modflag_set m))"
  by (simp add: merge_back_def merge_start_def)

theorem merge_back_off_or_unreadable_witness:
  "(\<exists>m. merge_back \<lparr>write_mergeback_data = False, utf8_in_src = False\<rparr>
            (\<lambda>path. Some (''int x;'' @ [NL])) sscanf_model (\<lambda>a b c d. 1) Fd_Code_Writer []
            ''ui.cxx'' FD_MERGEBACK_GO = Some (Inr m)
        \<and> ret m = 0 \<and> m_tree m = [] \<and> fopen_calls m = 0 \<and> m_fgets_calls m = 0)
   \<and> (\<exists>m. merge_back \<lparr>write_mergeback_data = True, utf8_in_src = False\<rparr>
            (\<lambda>path. None) sscanf_model (\<lambda>a b c d. 1) Fd_Code_Writer []
            ''ui.cxx'' FD_MERGEBACK_CHECK = Some (Inr m)
        \<and> ret m = 0 \<and> m_tree m = [] \<and> m_fgets_calls m = 0)"
  using
    merge_back_off_or_unreadable [of "\<lparr>write_mergeback_data = False, utf8_in_src = False\<rparr>"
      "\<lambda>path. Some (''int x;'' @ [NL])" sscanf_model "\<lambda>a b c d. 1" Fd_Code_Writer "[]"
      "''ui.cxx''" FD_MERGEBACK_GO]
    merge_back_off_or_unreadable [of "\<lparr>write_mergeback_data = True, utf8_in_src = False\<rparr>"
      "\<lambda>path. None" sscanf_model "\<lambda>a b c d. 1" Fd_Code_Writer "[]"
      "''ui.cxx''" FD_MERGEBACK_CHECK]
  by auto

section \<open>unindent and blank lines\<close>

text \<open>
  C7.  \<open>unindent\<close> does not follow the rule.  A block with a blank line in front of an
  indented line, \<open>a\n\n  b\<close>: the rule gives \<open>a\n\nb\<close>, but at the line start
  \<open>isspace\<close> takes the \<open>\n\<close> of the blank line for the first white-space byte and
  one space for the second, so the blank line is lost and the line behind it keeps a
  space: \<open>a\n b\<close>.  Of two adjacent carriage returns only the first is dropped.  And
  for a block that ends with a blank line the read pointer passes the terminating NUL.
\<close>

theorem unindent_blank_line:
  "unindent [CHR ''a'', NL, NL, CHR '' '', CHR '' '', CHR ''b''] = Inr [CHR ''a'', NL, CHR '' '', CHR ''b'']
   \<and> unindent_rule 0 [CHR ''a'', NL, NL, CHR '' '', CHR '' '', CHR ''b''] = [CHR ''a'', NL, NL, CHR ''b'']
   \<and> unindent [CHR ''a'', CR, CR, CHR ''b''] = Inr [CHR ''a'', CR, CHR ''b'']
   \<and> unindent_rule 0 [CHR ''a'', CR, CR, CHR ''b''] = ''ab''
   \<and> unindent [CHR ''a'', NL, NL] = Inl Out_Of_Bounds"
  by (simp add: unindent_def skip_space_def isspace_def byte_defs)

section \<open>Merge-back: the check\<close>

subsection \<open>The blocks of a file\<close>

text \<open>
  A tag line is a line in which the marker \<open>//~fl~\<close> stands; it is malformed when
  \<open>sscanf\<close> does not return 3 or the kind is outside \<open>0..3\<close>.  Each tag line closes a
  block: the lines since the tag line before it (or since the start of the file).  The
  recomputed CRC of the block is the \<open>block_crc_\<close> that \<open>crc_add\<close> leaves behind these
  lines, from the CRC32 initial value at a line start.
\<close>

definition tag_of :: "string \<Rightarrow> string option" where
  "tag_of chunk = strstr (takeWhile (\<lambda>c. c \<noteq> NUL) chunk) ''//~fl~''"

definition malformed :: "sscanf_tag \<Rightarrow> string \<Rightarrow> bool" where
  "malformed sscanf chunk =
     (case tag_of chunk of
        None \<Rightarrow> False
      | Some t \<Rightarrow> (case sscanf t of (n, type, u, crc) \<Rightarrow> n \<noteq> 3 \<or> type < 0 \<or> 3 < type))"

record tagged_block =
  kind :: int
  uid_of :: int
  tag_crc :: nat
  recomputed :: "32 word"

fun tagged_blocks :: "sscanf_tag \<Rightarrow> writer \<Rightarrow> string list \<Rightarrow> tagged_block list" where
  "tagged_blocks sscanf w [] = []"
| "tagged_blocks sscanf w (chunk # chunks) =
     (case tag_of chunk of
        None \<Rightarrow> tagged_blocks sscanf (crc_add_str w (takeWhile (\<lambda>c. c \<noteq> NUL) chunk)) chunks
      | Some t \<Rightarrow>
          (case sscanf t of (n, type, u, crc) \<Rightarrow>
             \<lparr>kind = type, uid_of = u, tag_crc = crc, recomputed = block_crc w\<rparr>
             # tagged_blocks sscanf (w\<lparr>block_crc := crc32_init, block_line_start := True\<rparr>) chunks))"

definition diverges :: "tagged_block \<Rightarrow> bool" where
  "diverges b = (unat (recomputed b) \<noteq> tag_crc b)"

definition structure_changed :: "tagged_block \<Rightarrow> bool" where
  "structure_changed b = (kind b = 0 \<and> diverges b)"

definition code_changed :: "tagged_block \<Rightarrow> bool" where
  "code_changed b = (kind b = 1 \<and> diverges b)"

definition callback_changed :: "tagged_block \<Rightarrow> bool" where
  "callback_changed b = ((kind b = 2 \<or> kind b = 3) \<and> diverges b)"

definition uid_not_found :: "Fl_Type list \<Rightarrow> tagged_block \<Rightarrow> bool" where
  "uid_not_found ts b =
     ((code_changed b \<or> callback_changed b) \<and> find_by_uid ts (word_of_int (uid_of b)) = None)"


lemma length_tagged_blocks: "length (tagged_blocks sscanf w ls) \<le> length ls"
  by (induction ls arbitrary: w) (auto split: option.splits prod.splits intro: le_SucI)

definition counted :: "scan \<Rightarrow> scan \<Rightarrow> tagged_block list \<Rightarrow> bool" where
  "counted sc sc' B =
     (tree sc' = tree sc \<and> edits sc' = edits sc \<and> changed sc' = changed sc
      \<and> tag_error sc' = tag_error sc
      \<and> num_changed_structure sc' = num_changed_structure sc + of_nat (length (filter structure_changed B))
      \<and> num_changed_code sc' = num_changed_code sc + of_nat (length (filter code_changed B))
      \<and> num_changed_callback sc' = num_changed_callback sc + of_nat (length (filter callback_changed B))
      \<and> num_uid_not_found sc' = num_uid_not_found sc + of_nat (length (filter (uid_not_found (tree sc)) B)))"

lemma merge_line_plain:
  "tag_of chunk = None \<Longrightarrow>
   \<exists>sc1. merge_line sscanf task f chunk sc = Inr (sc1, False)
     \<and> writer_of sc1 = crc_add_str (writer_of sc) (takeWhile (\<lambda>c. c \<noteq> NUL) chunk)
     \<and> counted sc sc1 []"
  by (simp add: merge_line_def tag_of_def Let_def counted_def)

lemma merge_block_count:
  assumes "task \<noteq> FD_MERGEBACK_GO" and "0 \<le> type" and "type \<le> 3"
    and b: "b = \<lparr>kind = type, uid_of = u, tag_crc = crc, recomputed = block_crc (writer_of sc)\<rparr>"
    and d: "diverges b"
  shows "\<exists>sc2. merge_block task f type u sc = Inr sc2 \<and> writer_of sc2 = writer_of sc
    \<and> here sc2 = here sc \<and> counted sc sc2 [b]"
proof -
  from assms(2,3) consider "type = 0" | "type = 1" | "type = 2" | "type = 3" by linarith
  then show ?thesis
    using assms(1) d
    by cases (auto simp: merge_block_def FD_defs Let_def counted_def b structure_changed_def
        code_changed_def callback_changed_def uid_not_found_def)
qed

lemma counted_not_diverges:
  "\<not> diverges b \<Longrightarrow> counted sc sc [b]"
  by (simp add: counted_def structure_changed_def code_changed_def callback_changed_def
      uid_not_found_def)

lemma merge_line_tag:
  assumes t: "tag_of chunk = Some t" and s: "sscanf t = (n, type, u, crc)"
    and ok: "\<not> malformed sscanf chunk" and task: "task \<noteq> FD_MERGEBACK_GO"
  shows "\<exists>sc1. merge_line sscanf task f chunk sc = Inr (sc1, False)
     \<and> writer_of sc1 = (writer_of sc)\<lparr>block_crc := crc32_init, block_line_start := True\<rparr>
     \<and> counted sc sc1 [\<lparr>kind = type, uid_of = u, tag_crc = crc, recomputed = block_crc (writer_of sc)\<rparr>]"
proof -
  define b where "b = \<lparr>kind = type, uid_of = u, tag_crc = crc, recomputed = block_crc (writer_of sc)\<rparr>"
  define sc0 where "sc0 = sc\<lparr>here := here sc + length chunk, line_no := line_no sc + 1,
                   fgets_calls := fgets_calls sc + 1\<rparr>"
  from ok t s have wf: "n = 3" "0 \<le> type" "type \<le> 3"
    by (auto simp: malformed_def)
  have c0: "counted sc sc0 []" by (simp add: counted_def sc0_def)
  have b0: "b = \<lparr>kind = type, uid_of = u, tag_crc = crc, recomputed = block_crc (writer_of sc0)\<rparr>"
    by (simp add: b_def sc0_def)
  have "\<exists>sc2. (if unat (block_crc (writer_of sc0)) \<noteq> crc
                then merge_block task f type u sc0 else Inr sc0) = Inr sc2
            \<and> writer_of sc2 = writer_of sc0 \<and> counted sc0 sc2 [b]"
  proof (cases "diverges b")
    case True
    then have "unat (block_crc (writer_of sc0)) \<noteq> crc" by (simp add: diverges_def b0)
    with merge_block_count [OF task wf(2,3) b0 True, of f] show ?thesis by auto
  next
    case False
    then have "\<not> unat (block_crc (writer_of sc0)) \<noteq> crc" by (simp add: diverges_def b0)
    with counted_not_diverges [OF False, of sc0] show ?thesis by auto
  qed
  then obtain sc2 where m: "(if unat (block_crc (writer_of sc0)) \<noteq> crc
                then merge_block task f type u sc0 else Inr sc0) = Inr sc2"
    and w2: "writer_of sc2 = writer_of sc0" and c2: "counted sc0 sc2 [b]"
    by blast
  have "merge_line sscanf task f chunk sc =
      Inr (sc2\<lparr>writer_of := (writer_of sc2)\<lparr>block_crc := crc32_init, block_line_start := True\<rparr>,
               block_start := here sc2\<rparr>, False)"
    unfolding merge_line_def Let_def sc0_def [symmetric]
    using t [unfolded tag_of_def] s wf m
    by (simp add: FD_defs)
  moreover have "counted sc (sc2\<lparr>writer_of := (writer_of sc2)\<lparr>block_crc := crc32_init, block_line_start := True\<rparr>,
               block_start := here sc2\<rparr>) [b]"
    using c0 c2 by (simp add: counted_def)
  ultimately show ?thesis
    using w2 by (auto simp: b_def sc0_def)
qed

lemma counted_append:
  "counted sc sc1 B1 \<Longrightarrow> counted sc1 sc2 B2 \<Longrightarrow> counted sc sc2 (B1 @ B2)"
  by (simp add: counted_def)

lemma counted_fgets: "counted sc (sc\<lparr>fgets_calls := k\<rparr>) []"
  by (simp add: counted_def)

lemma scan_lines_counted:
  assumes task: "task \<noteq> FD_MERGEBACK_GO"
  shows "\<not> list_ex (malformed sscanf) ls \<Longrightarrow>
    \<exists>sc'. scan_lines sscanf task f ls sc = Inr sc'
      \<and> counted sc sc' (tagged_blocks sscanf (writer_of sc) ls)"
proof (induction ls arbitrary: sc)
  case Nil
  show ?case by (simp add: counted_fgets)
next
  case (Cons chunk chunks)
  from Cons.prems have ok: "\<not> malformed sscanf chunk" and rest: "\<not> list_ex (malformed sscanf) chunks"
    by simp_all
  show ?case
  proof (cases "tag_of chunk")
    case None
    from merge_line_plain [OF None, of sscanf task f sc] obtain sc1 where
      l: "merge_line sscanf task f chunk sc = Inr (sc1, False)"
      and w: "writer_of sc1 = crc_add_str (writer_of sc) (takeWhile (\<lambda>c. c \<noteq> NUL) chunk)"
      and c: "counted sc sc1 []" by blast
    from Cons.IH [OF rest, of sc1] obtain sc' where
      s: "scan_lines sscanf task f chunks sc1 = Inr sc'"
      and c': "counted sc1 sc' (tagged_blocks sscanf (writer_of sc1) chunks)" by blast
    from counted_append [OF c c'] l s w None show ?thesis by simp
  next
    case (Some t)
    obtain n type u crc where sf: "sscanf t = (n, type, u, crc)"
      by (cases "sscanf t") auto
    from merge_line_tag [OF Some sf ok task, of f sc] obtain sc1 where
      l: "merge_line sscanf task f chunk sc = Inr (sc1, False)"
      and w: "writer_of sc1 = (writer_of sc)\<lparr>block_crc := crc32_init, block_line_start := True\<rparr>"
      and c: "counted sc sc1 [\<lparr>kind = type, uid_of = u, tag_crc = crc, recomputed = block_crc (writer_of sc)\<rparr>]"
      by blast
    from Cons.IH [OF rest, of sc1] obtain sc' where
      s: "scan_lines sscanf task f chunks sc1 = Inr sc'"
      and c': "counted sc1 sc' (tagged_blocks sscanf (writer_of sc1) chunks)" by blast
    from counted_append [OF c c'] l s w Some sf show ?thesis by simp
  qed
qed

lemma check_bits_0:
  "0 \<le> check_bits 0 sc \<and> check_bits 0 sc < 16
   \<and> bit (check_bits 0 sc) 0 = (num_changed_structure sc \<noteq> 0)
   \<and> bit (check_bits 0 sc) 1 = (num_changed_code sc \<noteq> 0)
   \<and> bit (check_bits 0 sc) 2 = (num_changed_callback sc \<noteq> 0)
   \<and> bit (check_bits 0 sc) 3 = (num_uid_not_found sc \<noteq> 0)"
  by (simp add: check_bits_def Let_def bit_numeral_iff numeral_3_eq_3 bit_Suc bit_0 numeral_2_eq_2)

lemma counter_not_0:
  "length (filter P B) < 2 ^ 31 \<Longrightarrow>
   ((0::32 word) + of_nat (length (filter P B)) \<noteq> 0) = list_ex P B"
proof -
  assume a: "length (filter P B) < 2 ^ 31"
  have "(word_of_nat (length (filter P B)) = (0::32 word)) = (length (filter P B) = 0)"
  proof
    assume "word_of_nat (length (filter P B)) = (0::32 word)"
    then have "2 ^ 32 dvd length (filter P B)"
      by (simp add: word_of_nat_eq_0_iff)
    with a show "length (filter P B) = 0"
      by (auto dest: dvd_imp_le)
  qed simp
  then show ?thesis
    by (simp add: list_ex_iff filter_empty_conv)
qed

lemma merge_line_malformed:
  "malformed sscanf chunk \<Longrightarrow>
   \<exists>sc1. merge_line sscanf task f chunk sc = Inr (sc1, True) \<and> tag_error sc1 = 1
     \<and> tree sc1 = tree sc \<and> edits sc1 = edits sc \<and> changed sc1 = changed sc"
  by (auto simp: malformed_def merge_line_def tag_of_def Let_def FD_defs
      split: option.splits prod.splits)

lemma scan_lines_malformed:
  assumes task: "task \<noteq> FD_MERGEBACK_GO"
  shows "list_ex (malformed sscanf) ls \<Longrightarrow>
    \<exists>sc'. scan_lines sscanf task f ls sc = Inr sc' \<and> tag_error sc' = 1
      \<and> tree sc' = tree sc \<and> edits sc' = edits sc \<and> changed sc' = changed sc"
proof (induction ls arbitrary: sc)
  case Nil
  then show ?case by simp
next
  case (Cons chunk chunks)
  show ?case
  proof (cases "malformed sscanf chunk")
    case True
    from merge_line_malformed [OF True, of task f sc] show ?thesis by auto
  next
    case False
    with Cons.prems have rest: "list_ex (malformed sscanf) chunks" by simp
    have "\<exists>sc1. merge_line sscanf task f chunk sc = Inr (sc1, False) \<and> tree sc1 = tree sc
        \<and> edits sc1 = edits sc \<and> changed sc1 = changed sc"
    proof (cases "tag_of chunk")
      case None
      from merge_line_plain [OF None, of sscanf task f sc] show ?thesis
        by (auto simp: counted_def)
    next
      case (Some t)
      obtain n type u crc where sf: "sscanf t = (n, type, u, crc)"
        by (cases "sscanf t") auto
      from merge_line_tag [OF Some sf False task, of f sc] show ?thesis
        by (auto simp: counted_def)
    qed
    then obtain sc1 where l: "merge_line sscanf task f chunk sc = Inr (sc1, False)"
      and k: "tree sc1 = tree sc" "edits sc1 = edits sc" "changed sc1 = changed sc"
      by blast
    from Cons.IH [OF rest, of sc1] l k show ?thesis by auto
  qed
qed

lemma CHECK_not_GO: "FD_MERGEBACK_CHECK \<noteq> FD_MERGEBACK_GO"
  by (simp add: FD_defs)

lemma merge_back_opened:
  "write_mergeback_data p \<Longrightarrow> fs s = Some f \<Longrightarrow>
   merge_back p fs sscanf fl_choice w ts s task =
     (case merge_back_loop sscanf fl_choice f task ((merge_start w ts)\<lparr>fopen_calls := 1\<rparr>) of
        None \<Rightarrow> None
      | Some (Inl e) \<Rightarrow> Some (Inl e)
      | Some (Inr m) \<Rightarrow> Some (Inr (m\<lparr>modflag_set := m_changed m\<rparr>)))"
  by (simp add: merge_back_def)


text \<open>
  C1.  With merge-back data on and a file that opens (of fewer than \<open>2^31\<close> lines, so
  that no \<open>int\<close> counter overflows), \<open>merge_back(path, CHECK)\<close> returns with the tree as
  it was and no edit made.  If some tag line is malformed it returns \<open>-1\<close>.  Otherwise
  it returns a value in \<open>0..15\<close> whose bit 0 is set iff some block of kind 0 diverges (its
  recomputed CRC is not the CRC of its tag), bit 1 iff some block of kind 1 diverges,
  bit 2 iff some block of kind 2 or 3 diverges, and bit 3 iff some diverging block of
  kind 1, 2 or 3 has a uid that no node of the tree has.
\<close>

theorem merge_back_check:
  assumes mb: "write_mergeback_data p" and fs: "fs s = Some f"
    and small: "length (read_lines f) < 2 ^ 31"
  shows "\<exists>m. merge_back p fs sscanf fl_choice w ts s FD_MERGEBACK_CHECK = Some (Inr m)
      \<and> m_tree m = ts \<and> m_edits m = [] \<and> \<not> modflag_set m
      \<and> (if list_ex (malformed sscanf) (read_lines f) then ret m = - 1
         else 0 \<le> ret m \<and> ret m < 16
           \<and> bit (ret m) 0 = list_ex structure_changed
                 (tagged_blocks sscanf (w\<lparr>block_crc := crc32_init, block_line_start := True\<rparr>) (read_lines f))
           \<and> bit (ret m) 1 = list_ex code_changed
                 (tagged_blocks sscanf (w\<lparr>block_crc := crc32_init, block_line_start := True\<rparr>) (read_lines f))
           \<and> bit (ret m) 2 = list_ex callback_changed
                 (tagged_blocks sscanf (w\<lparr>block_crc := crc32_init, block_line_start := True\<rparr>) (read_lines f))
           \<and> bit (ret m) 3 = list_ex (uid_not_found ts)
                 (tagged_blocks sscanf (w\<lparr>block_crc := crc32_init, block_line_start := True\<rparr>) (read_lines f)))"
proof -
  define m0 where "m0 = (merge_start w ts)\<lparr>fopen_calls := 1\<rparr>"
  define sc0 where "sc0 = scan_start m0"
  define B where "B = tagged_blocks sscanf (w\<lparr>block_crc := crc32_init, block_line_start := True\<rparr>) (read_lines f)"
  have w0: "writer_of sc0 = w\<lparr>block_crc := crc32_init, block_line_start := True\<rparr>"
    and z: "tree sc0 = ts" "edits sc0 = []" "changed sc0 = False" "tag_error sc0 = 0"
      "num_changed_structure sc0 = 0" "num_changed_code sc0 = 0"
      "num_changed_callback sc0 = 0" "num_uid_not_found sc0 = 0"
    by (simp_all add: sc0_def scan_start_def m0_def merge_start_def)
  have r0: "ret m0 = 0" by (simp add: m0_def merge_start_def)
  have loop: "merge_back_loop sscanf fl_choice f FD_MERGEBACK_CHECK m0 =
      (case scan_lines sscanf FD_MERGEBACK_CHECK f (read_lines f) sc0 of
         Inl e \<Rightarrow> Some (Inl e)
       | Inr sc \<Rightarrow>
           if tag_error sc \<noteq> 0 then Some (Inr ((scan_done m0 sc)\<lparr>ret := - 1\<rparr>))
           else Some (Inr ((scan_done m0 sc)\<lparr>ret := check_bits (ret (scan_done m0 sc)) sc\<rparr>)))"
    by (subst merge_back_loop.simps) (simp add: CHECK_not_GO sc0_def Let_def split: sum.split)
  show ?thesis
  proof (cases "list_ex (malformed sscanf) (read_lines f)")
    case True
    from scan_lines_malformed [OF CHECK_not_GO True, of f sc0] obtain sc' where
      s: "scan_lines sscanf FD_MERGEBACK_CHECK f (read_lines f) sc0 = Inr sc'"
      and k: "tag_error sc' = 1" "tree sc' = tree sc0" "edits sc' = edits sc0" "changed sc' = changed sc0"
      by blast
    show ?thesis
      unfolding merge_back_opened [of p fs s f, OF mb fs] m0_def [symmetric]
      using True loop s k z
      by (simp add: scan_done_def)
  next
    case False
    from scan_lines_counted [OF CHECK_not_GO False, of f sc0] obtain sc' where
      s: "scan_lines sscanf FD_MERGEBACK_CHECK f (read_lines f) sc0 = Inr sc'"
      and c: "counted sc0 sc' B"
      by (auto simp: w0 B_def)
    have lb: "length B \<le> length (read_lines f)"
      unfolding B_def by (rule length_tagged_blocks)
    have lf: "length (filter P B) < 2 ^ 31" for P
      using length_filter_le [of P B] lb small by linarith
    from c z have k: "tree sc' = ts" "edits sc' = []" "changed sc' = False" "tag_error sc' = 0"
      and n: "(num_changed_structure sc' \<noteq> 0) = list_ex structure_changed B"
        "(num_changed_code sc' \<noteq> 0) = list_ex code_changed B"
        "(num_changed_callback sc' \<noteq> 0) = list_ex callback_changed B"
        "(num_uid_not_found sc' \<noteq> 0) = list_ex (uid_not_found ts) B"
      using counter_not_0 [OF lf]
      by (simp_all add: counted_def)
    have rd: "ret (scan_done m0 sc') = 0" by (simp add: scan_done_def r0)
    show ?thesis
      unfolding merge_back_opened [of p fs s f, OF mb fs] m0_def [symmetric] B_def [symmetric]
      using False loop s k n check_bits_0 [of sc']
      by (simp add: scan_done_def rd r0)
  qed
qed

lemma fgets_line_numeral:
  "fgets_line (numeral k) (c # cs) = c # (if c = NL then [] else fgets_line (pred_numeral k) cs)"
  by (simp only: numeral_eq_Suc [of k] fgets_line.simps)

lemma fgets_line_Nil [simp]: "fgets_line k [] = []"
  by (cases k) simp_all

lemmas scan_eval =
  read_lines.simps fgets_line_numeral byte_defs tag_of_def malformed_def sscanf_model_def
  scan_int_def scan_hex_def is_dec_digit_def is_hex_digit_def hex_digit_value_def isspace_def
  Let_def crc_add_str_def crc_add_def crc_add_round_def crc32_eval diverges_def
  structure_changed_def code_changed_def callback_changed_def uid_not_found_def


theorem merge_back_check_witness:
  "(\<exists>m. merge_back \<lparr>write_mergeback_data = True, utf8_in_src = False\<rparr>
          (\<lambda>path. Some (''x;'' @ [NL] @ ''//~fl~0~0001~79c4e6dc~~'' @ [NL]
                         @ ''  y;'' @ [NL] @ ''//~fl~1~0002~00000000~~'' @ [NL]))
          sscanf_model (\<lambda>a b c d. 1) Fd_Code_Writer [] ''ui.cxx'' FD_MERGEBACK_CHECK = Some (Inr m)
      \<and> m_tree m = [] \<and> \<not> bit (ret m) 0 \<and> bit (ret m) 1 \<and> \<not> bit (ret m) 2 \<and> bit (ret m) 3)
   \<and> (\<exists>m. merge_back \<lparr>write_mergeback_data = True, utf8_in_src = False\<rparr>
          (\<lambda>path. Some (''x;'' @ [NL] @ ''//~fl~9~0001~79c4e6dc~~'' @ [NL]))
          sscanf_model (\<lambda>a b c d. 1) Fd_Code_Writer [] ''ui.cxx'' FD_MERGEBACK_CHECK = Some (Inr m)
      \<and> m_tree m = [] \<and> ret m = - 1)"
proof -
  let ?p = "\<lparr>write_mergeback_data = True, utf8_in_src = False\<rparr>"
  let ?f1 = "''x;'' @ [NL] @ ''//~fl~0~0001~79c4e6dc~~'' @ [NL]
                         @ ''  y;'' @ [NL] @ ''//~fl~1~0002~00000000~~'' @ [NL]"
  let ?f2 = "''x;'' @ [NL] @ ''//~fl~9~0001~79c4e6dc~~'' @ [NL]"
  have mb: "write_mergeback_data ?p" by simp
  have l1: "read_lines ?f1 = [''x;'' @ [NL], ''//~fl~0~0001~79c4e6dc~~'' @ [NL],
      ''  y;'' @ [NL], ''//~fl~1~0002~00000000~~'' @ [NL]]"
    by (simp add: read_lines.simps fgets_line_numeral byte_defs)
  have l2: "read_lines ?f2 = [''x;'' @ [NL], ''//~fl~9~0001~79c4e6dc~~'' @ [NL]]"
    by (simp add: read_lines.simps fgets_line_numeral byte_defs)
  have s1: "length (read_lines ?f1) < 2 ^ 31" unfolding l1 by simp
  have s2: "length (read_lines ?f2) < 2 ^ 31" unfolding l2 by simp
  have B: "tagged_blocks sscanf_model
        (Fd_Code_Writer\<lparr>block_crc := crc32_init, block_line_start := True\<rparr>) (read_lines ?f1)
      = [\<lparr>kind = 0, uid_of = 1, tag_crc = 0x79c4e6dc, recomputed = 0x79c4e6dc\<rparr>,
         \<lparr>kind = 1, uid_of = 2, tag_crc = 0, recomputed = 0x78068ceb\<rparr>]"
    unfolding l1 by (simp add: scan_eval Fd_Code_Writer_def)
  have m1: "\<not> list_ex (malformed sscanf_model) (read_lines ?f1)"
    unfolding l1 by (simp add: scan_eval)
  have m2: "list_ex (malformed sscanf_model) (read_lines ?f2)"
    unfolding l2 by (simp add: scan_eval)
  have e: "\<not> list_ex structure_changed [\<lparr>kind = 0, uid_of = 1, tag_crc = 0x79c4e6dc, recomputed = 0x79c4e6dc\<rparr>,
         \<lparr>kind = 1, uid_of = 2, tag_crc = 0, recomputed = 0x78068ceb\<rparr>]"
     "list_ex code_changed [\<lparr>kind = 0, uid_of = 1, tag_crc = 0x79c4e6dc, recomputed = 0x79c4e6dc\<rparr>,
         \<lparr>kind = 1, uid_of = 2, tag_crc = 0, recomputed = 0x78068ceb\<rparr>]"
     "\<not> list_ex callback_changed [\<lparr>kind = 0, uid_of = 1, tag_crc = 0x79c4e6dc, recomputed = 0x79c4e6dc\<rparr>,
         \<lparr>kind = 1, uid_of = 2, tag_crc = 0, recomputed = 0x78068ceb\<rparr>]"
     "list_ex (uid_not_found []) [\<lparr>kind = 0, uid_of = 1, tag_crc = 0x79c4e6dc, recomputed = 0x79c4e6dc\<rparr>,
         \<lparr>kind = 1, uid_of = 2, tag_crc = 0, recomputed = 0x78068ceb\<rparr>]"
    by (simp_all add: diverges_def structure_changed_def code_changed_def callback_changed_def
        uid_not_found_def)
  from merge_back_check [of ?p "\<lambda>path. Some ?f1" "''ui.cxx''" ?f1 sscanf_model "\<lambda>a b c d. 1"
      Fd_Code_Writer "[]", OF mb _ s1]
  have a: "\<exists>m. merge_back ?p (\<lambda>path. Some ?f1) sscanf_model (\<lambda>a b c d. 1) Fd_Code_Writer []
        ''ui.cxx'' FD_MERGEBACK_CHECK = Some (Inr m)
      \<and> m_tree m = [] \<and> \<not> bit (ret m) 0 \<and> bit (ret m) 1 \<and> \<not> bit (ret m) 2 \<and> bit (ret m) 3"
    unfolding B using m1 e by auto
  from merge_back_check [of ?p "\<lambda>path. Some ?f2" "''ui.cxx''" ?f2 sscanf_model "\<lambda>a b c d. 1"
      Fd_Code_Writer "[]", OF mb _ s2]
  have b: "\<exists>m. merge_back ?p (\<lambda>path. Some ?f2) sscanf_model (\<lambda>a b c d. 1) Fd_Code_Writer []
        ''ui.cxx'' FD_MERGEBACK_CHECK = Some (Inr m) \<and> m_tree m = [] \<and> ret m = - 1"
    using m2 by auto
  from a b show ?thesis by blast
qed

section \<open>Merge-back: the GO mode\<close>






definition edits_grow :: "scan \<Rightarrow> scan \<Rightarrow> bool" where
  "edits_grow sc sc' = (\<exists>new. edits sc' = edits sc @ new \<and> (new = [] \<longrightarrow> tree sc' = tree sc))"

lemma edits_grow_refl: "edits sc' = edits sc \<Longrightarrow> tree sc' = tree sc \<Longrightarrow> edits_grow sc sc'"
  by (simp add: edits_grow_def)












end
